theory Spec2Isabelle
  imports Main "HOL-Library.AList" "HOL-Library.Char_ord" "HOL-Library.List_Lexorder"
begin

section \<open>The blueprint system of denali-cli (src/blueprint.ts)\<close>

text \<open>
  The development embeds \<^verbatim>\<open>src/src/blueprint.ts\<close>: blueprint discovery, \<^verbatim>\<open>generate\<close>,
  \<^verbatim>\<open>destroy\<close>, \<^verbatim>\<open>configureBlueprints\<close>, \<^verbatim>\<open>addRoute\<close> and \<^verbatim>\<open>removeRoute\<close>. The libraries the
  file calls (the file system, \<^verbatim>\<open>path\<close>, lodash's \<^verbatim>\<open>template\<close>, walk-sync, jscodeshift) are
  not part of the repository. Each is modelled by the part of its documented behaviour
  that the calls of blueprint.ts reach, and each such model says what it leaves out.
\<close>

subsection \<open>JavaScript values\<close>

text \<open>
  The values the model distinguishes: what a template expression can yield and what a
  hook can throw. An \<^verbatim>\<open>Error\<close> object is its name, its message and its \<^verbatim>\<open>stack\<close> text.
  Numbers and other objects are left out.
\<close>

datatype jsval = JUndefined | JNull | JBool bool | JStr string | JError string string string

text \<open>\<^verbatim>\<open>e.stack\<close>: reading a property of \<^verbatim>\<open>null\<close> or \<^verbatim>\<open>undefined\<close> throws a TypeError; a
  primitive has no such property, so the read gives \<^verbatim>\<open>undefined\<close>.\<close>

definition type_error :: "string \<Rightarrow> jsval" where
  "type_error msg = JError ''TypeError'' msg (''TypeError: '' @ msg)"

fun get_stack :: "jsval \<Rightarrow> jsval + jsval" where
  "get_stack JUndefined = Inl (type_error ''Cannot read property 'stack' of undefined'')"
| "get_stack JNull = Inl (type_error ''Cannot read property 'stack' of null'')"
| "get_stack (JError n m st) = Inr (JStr st)"
| "get_stack v = Inr JUndefined"

fun truthy :: "jsval \<Rightarrow> bool" where
  "truthy JUndefined = False"
| "truthy JNull = False"
| "truthy (JBool b) = b"
| "truthy (JStr s) = (s \<noteq> [])"
| "truthy (JError n m st) = True"

text \<open>String conversion of a value (\<^verbatim>\<open>'' + v\<close>).\<close>

fun to_string :: "jsval \<Rightarrow> string" where
  "to_string JUndefined = ''undefined''"
| "to_string JNull = ''null''"
| "to_string (JBool b) = (if b then ''true'' else ''false'')"
| "to_string (JStr s) = s"
| "to_string (JError n m st) = (if m = [] then n else n @ '': '' @ m)"

subsection \<open>lodash \<^verbatim>\<open>template\<close>\<close>

text \<open>
  \<^verbatim>\<open>template(string, options)\<close> joins four delimiters into one regular expression, in this
  order: \<^verbatim>\<open>escape\<close> (\<^verbatim>\<open><%-([\s\S]+?)%>\<close>), \<^verbatim>\<open>interpolate\<close>, the ES template literal
  delimiter (\<^verbatim>\<open>\$\{([^\\}]*(?:\\.[^\\}]*)*)\}\<close>) and \<^verbatim>\<open>evaluate\<close> (\<^verbatim>\<open><%([\s\S]+?)%>\<close>), and
  replaces every match from left to right. \<^verbatim>\<open>escape\<close> and \<^verbatim>\<open>evaluate\<close> are never passed by
  blueprint.ts, so they keep the defaults of \<^verbatim>\<open>templateSettings\<close>. The ES delimiter is active
  only when the \<^verbatim>\<open>interpolate\<close> option is lodash's own default regular expression object:
  passing any other expression, even one with the same source text, switches it off.

  blueprint.ts calls \<^verbatim>\<open>template\<close> with three settings of \<^verbatim>\<open>interpolate\<close>: none (line 242),
  \<^verbatim>\<open>/<%=([\s\S]+?)%>/g\<close> (line 190) and \<^verbatim>\<open>/__([\S]+)__/g\<close> (lines 177 and 222).
\<close>

datatype interpolate_re = ErbRegExp | DunderRegExp

datatype delimiter = Escape | Interpolate | Evaluate

datatype segment = Text string | Code delimiter string

text \<open>The lazy group \<^verbatim>\<open>([\s\S]+?)%>\<close>: at least one character, then the first \<^verbatim>\<open>%>\<close>.\<close>

fun until_close :: "string \<Rightarrow> string option" where
  "until_close (c # d # cs) =
     (if c = CHR ''%'' \<and> d = CHR ''>'' then Some []
      else map_option ((#) c) (until_close (d # cs)))"
| "until_close cs = None"

definition match_erb :: "string \<Rightarrow> string \<Rightarrow> string option" where
  "match_erb pre s =
     (if take (length pre) s = pre then
        (case drop (length pre) s of
           [] \<Rightarrow> None
         | c # cs \<Rightarrow> map_option ((#) c) (until_close cs))
      else None)"

text \<open>\<^verbatim>\<open>\s\<close> on the characters below 256.\<close>

definition is_space :: "char \<Rightarrow> bool" where
  "is_space c = (of_char c \<in> {9, 10, 11, 12, 13, 32, 160 :: nat})"

text \<open>The greedy group \<^verbatim>\<open>([\S]+)__\<close> inside a run of non-space characters: the longest
  non-empty capture that two underscores follow.\<close>

fun greedy_dunder :: "string \<Rightarrow> string option" where
  "greedy_dunder [] = None"
| "greedy_dunder (c # cs) =
     (case greedy_dunder cs of
        Some cap \<Rightarrow> Some (c # cap)
      | None \<Rightarrow> if take 2 cs = ''__'' then Some [c] else None)"

definition match_dunder :: "string \<Rightarrow> string option" where
  "match_dunder s =
     (if take 2 s = ''__'' then greedy_dunder (takeWhile (\<lambda>c. \<not> is_space c) (drop 2 s))
      else None)"

text \<open>The body of \<^verbatim>\<open>${...}\<close>: characters other than backslash and closing brace, or a
  backslash with the character after it (\<^verbatim>\<open>.\<close> matches no line terminator).\<close>

fun es_body :: "string \<Rightarrow> string option" where
  "es_body [] = None"
| "es_body (c # cs) =
     (if c = CHR ''}'' then Some []
      else if c = CHR 0x5C then
        (case cs of
           [] \<Rightarrow> None
         | d # ds \<Rightarrow>
             if d = CHR 0x0A \<or> d = CHR 0x0D then None
             else map_option (\<lambda>b. c # d # b) (es_body ds))
      else map_option ((#) c) (es_body cs))"

definition match_es :: "string \<Rightarrow> string option" where
  "match_es s = (if take 2 s = ''${'' then es_body (drop 2 s) else None)"

text \<open>
  One attempt of the joined expression at the start of \<open>s\<close>: the segments that replace the
  match, and the number of characters matched. The options are the \<^verbatim>\<open>interpolate\<close>
  expression passed, \<open>None\<close> when the call passes none. An ES match with an empty body is
  consumed and replaced by nothing.
\<close>

definition match_delimiter :: "interpolate_re option \<Rightarrow> string \<Rightarrow> (segment list \<times> nat) option" where
  "match_delimiter opts s =
     (case match_erb ''<%-'' s of
        Some e \<Rightarrow> Some ([Code Escape e], length e + 5)
      | None \<Rightarrow>
     (case (case opts of
              Some DunderRegExp \<Rightarrow> map_option (\<lambda>e. (e, length e + 4)) (match_dunder s)
            | _ \<Rightarrow> map_option (\<lambda>e. (e, length e + 5)) (match_erb ''<%='' s)) of
        Some (e, n) \<Rightarrow> Some ([Code Interpolate e], n)
      | None \<Rightarrow>
     (case (if opts = None then match_es s else None) of
        Some e \<Rightarrow> Some (if e = [] then [] else [Code Interpolate e], length e + 3)
      | None \<Rightarrow>
     (case match_erb ''<%'' s of
        Some e \<Rightarrow> Some ([Code Evaluate e], length e + 4)
      | None \<Rightarrow> None))))"

fun compile :: "interpolate_re option \<Rightarrow> string \<Rightarrow> segment list" where
  "compile opts [] = []"
| "compile opts (c # cs) =
     (case match_delimiter opts (c # cs) of
        None \<Rightarrow> Text [c] # compile opts cs
      | Some (segs, n) \<Rightarrow> segs @ compile opts (drop (n - 1) cs))"


text \<open>
  The text between the delimiters is JavaScript. lodash puts it into the source of a
  function, which the engine parses when \<^verbatim>\<open>template\<close> is called (a SyntaxError is thrown
  there) and runs, with the locals in scope (\<^verbatim>\<open>with (obj) { ... }\<close>), when the compiled
  template is called. The engine is a parameter of the model. For a template without
  \<^verbatim>\<open>evaluate\<close> blocks the function only concatenates, so the engine is asked about each
  expression on its own: whether it parses, and what it gives or throws under the
  locals. A template with \<^verbatim>\<open>evaluate\<close> blocks weaves arbitrary statements into the
  function; there the engine is handed the whole list of segments, to say whether the
  function parses and what text it returns or what it throws. The engine is a function
  of its arguments: expressions that read anything but the locals, or change anything,
  are left out, and so are expressions that parse only together with the code lodash
  puts around them.
\<close>

type_synonym locals_data = "(string \<times> jsval) list"

type_synonym evaluator = "string \<Rightarrow> locals_data \<Rightarrow> jsval + jsval"

record engine =
  syntax_error :: "string \<Rightarrow> jsval option"
  eval_expr :: evaluator
  blocks_error :: "segment list \<Rightarrow> jsval option"
  run_blocks :: "segment list \<Rightarrow> locals_data \<Rightarrow> jsval + string"

text \<open>The pieces of a template that has no \<^verbatim>\<open>evaluate\<close> block; \<open>None\<close> when it has one.\<close>

datatype piece = Verbatim string | Insert string | InsertEscaped string

fun block_free :: "segment list \<Rightarrow> piece list option" where
  "block_free [] = Some []"
| "block_free (Text t # segs) = map_option ((#) (Verbatim t)) (block_free segs)"
| "block_free (Code Interpolate e # segs) = map_option ((#) (Insert e)) (block_free segs)"
| "block_free (Code Escape e # segs) = map_option ((#) (InsertEscaped e)) (block_free segs)"
| "block_free (Code Evaluate e # segs) = None"

fun first_syntax_error :: "(string \<Rightarrow> jsval option) \<Rightarrow> piece list \<Rightarrow> jsval option" where
  "first_syntax_error chk [] = None"
| "first_syntax_error chk (Verbatim t # ps) = first_syntax_error chk ps"
| "first_syntax_error chk (Insert e # ps) =
     (case chk e of Some x \<Rightarrow> Some x | None \<Rightarrow> first_syntax_error chk ps)"
| "first_syntax_error chk (InsertEscaped e # ps) =
     (case chk e of Some x \<Rightarrow> Some x | None \<Rightarrow> first_syntax_error chk ps)"

text \<open>An interpolated value is \<^verbatim>\<open>(__t = (e)) == null ? '' : __t\<close>; an escaped one goes through
  lodash's \<^verbatim>\<open>escape\<close>.\<close>

definition interpolated :: "jsval \<Rightarrow> string" where
  "interpolated v = (if v = JUndefined \<or> v = JNull then [] else to_string v)"

definition escape_char :: "char \<Rightarrow> string" where
  "escape_char c =
     (if c = CHR ''&'' then ''&amp;''
      else if c = CHR ''<'' then ''&lt;''
      else if c = CHR ''>'' then ''&gt;''
      else if c = CHR 0x22 then ''&quot;''
      else if c = CHR 0x27 then ''&#39;''
      else [c])"

definition escape_html :: "string \<Rightarrow> string" where
  "escape_html s = concat (map escape_char s)"

text \<open>Running a template without blocks appends the pieces from left to right; the first
  expression that throws ends the run.\<close>

fun render :: "evaluator \<Rightarrow> locals_data \<Rightarrow> piece list \<Rightarrow> jsval + string" where
  "render ev data [] = Inr []"
| "render ev data (Verbatim t # ps) =
     (case render ev data ps of Inl x \<Rightarrow> Inl x | Inr r \<Rightarrow> Inr (t @ r))"
| "render ev data (Insert e # ps) =
     (case ev e data of
        Inl x \<Rightarrow> Inl x
      | Inr v \<Rightarrow> (case render ev data ps of Inl x \<Rightarrow> Inl x | Inr r \<Rightarrow> Inr (interpolated v @ r)))"
| "render ev data (InsertEscaped e # ps) =
     (case ev e data of
        Inl x \<Rightarrow> Inl x
      | Inr v \<Rightarrow>
          (case render ev data ps of
             Inl x \<Rightarrow> Inl x
           | Inr r \<Rightarrow> Inr (escape_html (interpolated v) @ r)))"

text \<open>\<^verbatim>\<open>template(string, options)\<close>: it throws what the engine finds when it parses the
  function, or returns the compiled template, a function of the locals.\<close>

definition template :: "engine \<Rightarrow> interpolate_re option \<Rightarrow> string \<Rightarrow> jsval + (locals_data \<Rightarrow> jsval + string)" where
  "template eng opts s =
     (let segs = compile opts s in
      case block_free segs of
        None \<Rightarrow>
          (case blocks_error eng segs of
             Some e \<Rightarrow> Inl e
           | None \<Rightarrow> Inr (run_blocks eng segs))
      | Some ps \<Rightarrow>
          (case first_syntax_error (syntax_error eng) ps of
             Some e \<Rightarrow> Inl e
           | None \<Rightarrow> Inr (\<lambda>data. render (eval_expr eng) data ps)))"

text \<open>\<^verbatim>\<open>template(string, options)(data)\<close>: compiled, then called at once.\<close>

definition apply_template :: "engine \<Rightarrow> interpolate_re option \<Rightarrow> string \<Rightarrow> locals_data \<Rightarrow> jsval + string" where
  "apply_template eng opts s data =
     (case template eng opts s of Inl e \<Rightarrow> Inl e | Inr compiled \<Rightarrow> compiled data)"

text \<open>
  An engine for the concrete runs below. Its language has identifiers only: an
  expression that is one identifier is looked up in the locals (a ReferenceError when it
  is not there); whatever else it is given, an expression of another form or a template
  with blocks, it refuses as a SyntaxError when the template is compiled.
\<close>

definition is_ident_char :: "char \<Rightarrow> bool" where
  "is_ident_char c =
     (let n = (of_char c :: nat) in
      (97 \<le> n \<and> n \<le> 122) \<or> (65 \<le> n \<and> n \<le> 90) \<or> (48 \<le> n \<and> n \<le> 57) \<or> n = 95 \<or> n = 36)"

definition trim :: "string \<Rightarrow> string" where
  "trim s = rev (dropWhile is_space (rev (dropWhile is_space s)))"

definition is_identifier :: "string \<Rightarrow> bool" where
  "is_identifier e = (trim e \<noteq> [] \<and> list_all is_ident_char (trim e))"

definition lookup_eval :: evaluator where
  "lookup_eval e data =
     (case map_of data (trim e) of
        Some v \<Rightarrow> Inr v
      | None \<Rightarrow> Inl (JError ''ReferenceError'' (trim e @ '' is not defined'') []))"

definition lookup_engine :: engine where
  "lookup_engine =
     \<lparr>syntax_error = (\<lambda>e. if is_identifier e then None
                           else Some (JError ''SyntaxError'' e [])),
      eval_expr = lookup_eval,
      blocks_error = (\<lambda>segs. Some (JError ''SyntaxError'' ''blocks'' [])),
      run_blocks = (\<lambda>segs data. Inl (JError ''SyntaxError'' ''blocks'' []))\<rparr>"

subsection \<open>Paths and the file system\<close>

text \<open>
  An absolute path is the list of its segments, normalised as \<^verbatim>\<open>path.normalize\<close> does:
  empty and \<^verbatim>\<open>.\<close> segments vanish and \<^verbatim>\<open>..\<close> drops the segment before it. A trailing slash
  is kept by \<^verbatim>\<open>path.join\<close>; it is the empty segment at the end of the list. \<^verbatim>\<open>path.resolve\<close>,
  \<^verbatim>\<open>path.dirname\<close> and \<^verbatim>\<open>path.relative\<close> drop it. The file system is a finite table from
  paths without a trailing slash to nodes; a path with a trailing slash names what the
  path without it names when that is a directory, and nothing otherwise. Links,
  permissions and the working of glob characters in \<^verbatim>\<open>rimraf\<close> are left out.
\<close>

type_synonym path = "string list"

datatype node = File string | Directory

type_synonym filesystem = "(path \<times> node) list"

fun split_on :: "char \<Rightarrow> string \<Rightarrow> string list" where
  "split_on d [] = [[]]"
| "split_on d (c # cs) =
     (if c = d then [] # split_on d cs
      else (case split_on d cs of x # xs \<Rightarrow> (c # x) # xs | [] \<Rightarrow> [[c]]))"

definition norm_step :: "path \<Rightarrow> string \<Rightarrow> path" where
  "norm_step acc seg =
     (if seg = [] \<or> seg = ''.'' then acc else if seg = ''..'' then butlast acc else acc @ [seg])"

definition has_slash :: "path \<Rightarrow> bool" where
  "has_slash p = (p \<noteq> [] \<and> last p = [])"

definition strip_slash :: "path \<Rightarrow> path" where
  "strip_slash p = (if has_slash p then butlast p else p)"

text \<open>\<^verbatim>\<open>path.normalize\<close> of an absolute path: the root has no trailing slash to keep.\<close>

definition normalize :: "string list \<Rightarrow> path" where
  "normalize segs =
     (let body = foldl norm_step [] segs in
      if body \<noteq> [] \<and> has_slash segs then body @ [[]] else body)"

text \<open>\<^verbatim>\<open>path.join(base, rel)\<close>; an empty \<open>rel\<close> is skipped.\<close>

definition path_join :: "path \<Rightarrow> string \<Rightarrow> path" where
  "path_join base rel = normalize (base @ (if rel = [] then [] else split_on CHR ''/'' rel))"

definition path_resolve :: "path \<Rightarrow> path" where
  "path_resolve p = strip_slash p"

definition path_dirname :: "path \<Rightarrow> path" where
  "path_dirname p = butlast (strip_slash p)"

fun join_segments :: "string list \<Rightarrow> string" where
  "join_segments [] = []"
| "join_segments [s] = s"
| "join_segments (s # t # ss) = s @ ''/'' @ join_segments (t # ss)"

fun strip_common :: "path \<Rightarrow> path \<Rightarrow> path \<times> path" where
  "strip_common (a # as) (b # bs) = (if a = b then strip_common as bs else (a # as, b # bs))"
| "strip_common as bs = (as, bs)"

definition path_relative :: "path \<Rightarrow> path \<Rightarrow> string" where
  "path_relative from to =
     (case strip_common (strip_slash from) (strip_slash to) of
        (f, t) \<Rightarrow> join_segments (replicate (length f) ''..'' @ t))"

definition fs_error :: "string \<Rightarrow> path \<Rightarrow> jsval" where
  "fs_error code p = JError ''Error'' (code @ '': /'' @ join_segments p) []"

text \<open>What a path names.\<close>

definition stat :: "filesystem \<Rightarrow> path \<Rightarrow> node option" where
  "stat fs p =
     (if has_slash p then
        (case map_of fs (butlast p) of Some Directory \<Rightarrow> Some Directory | _ \<Rightarrow> None)
      else map_of fs p)"

definition existsSync :: "filesystem \<Rightarrow> path \<Rightarrow> bool" where
  "existsSync fs p = (stat fs p \<noteq> None)"

definition isDirectory :: "filesystem \<Rightarrow> path \<Rightarrow> bool" where
  "isDirectory fs p = (stat fs p = Some Directory)"

definition readFileSync :: "filesystem \<Rightarrow> path \<Rightarrow> jsval + string" where
  "readFileSync fs p =
     (case map_of fs (strip_slash p) of
        None \<Rightarrow> Inl (fs_error ''ENOENT'' p)
      | Some Directory \<Rightarrow> Inl (fs_error ''EISDIR'' p)
      | Some (File c) \<Rightarrow> if has_slash p then Inl (fs_error ''ENOTDIR'' p) else Inr c)"

text \<open>A file cannot be written under a name with a trailing slash.\<close>

definition writeFileSync :: "filesystem \<Rightarrow> path \<Rightarrow> string \<Rightarrow> jsval + filesystem" where
  "writeFileSync fs p c =
     (if p = [] then Inl (fs_error ''EISDIR'' p)
      else if has_slash p then
        (case map_of fs (butlast p) of
           Some (File x) \<Rightarrow> Inl (fs_error ''ENOTDIR'' p)
         | _ \<Rightarrow> Inl (fs_error ''EISDIR'' p))
      else
        (case map_of fs (butlast p) of
           None \<Rightarrow> Inl (fs_error ''ENOENT'' p)
         | Some (File x) \<Rightarrow> Inl (fs_error ''ENOTDIR'' p)
         | Some Directory \<Rightarrow>
             (case map_of fs p of
                Some Directory \<Rightarrow> Inl (fs_error ''EISDIR'' p)
              | _ \<Rightarrow> Inr (AList.update p (File c) fs))))"

text \<open>\<^verbatim>\<open>mkdirp.sync\<close>: every missing ancestor and the path itself become directories; a file
  on the way is an error, met before anything is created.\<close>

definition ensure_dir :: "path \<Rightarrow> filesystem \<Rightarrow> jsval + filesystem" where
  "ensure_dir p fs =
     (case map_of fs p of
        None \<Rightarrow> Inr (AList.update p Directory fs)
      | Some Directory \<Rightarrow> Inr fs
      | Some (File c) \<Rightarrow> Inl (fs_error ''EEXIST'' p))"

fun mkdirp_from :: "path \<Rightarrow> string list \<Rightarrow> filesystem \<Rightarrow> jsval + filesystem" where
  "mkdirp_from pre [] fs = ensure_dir pre fs"
| "mkdirp_from pre (s # ss) fs =
     (case ensure_dir pre fs of Inl e \<Rightarrow> Inl e | Inr fs' \<Rightarrow> mkdirp_from (pre @ [s]) ss fs')"

definition mkdirp :: "path \<Rightarrow> filesystem \<Rightarrow> jsval + filesystem" where
  "mkdirp p fs = mkdirp_from [] (strip_slash p) fs"

text \<open>\<^verbatim>\<open>rimraf.sync\<close>: a file is unlinked, a directory goes with all below it, a path that
  names nothing is no error; a file named with a trailing slash cannot be unlinked.\<close>

definition rimraf :: "filesystem \<Rightarrow> path \<Rightarrow> jsval + filesystem" where
  "rimraf fs p =
     (case map_of fs (strip_slash p) of
        None \<Rightarrow> Inr fs
      | Some (File c) \<Rightarrow>
          if has_slash p then Inl (fs_error ''ENOTDIR'' p) else Inr (AList.delete p fs)
      | Some Directory \<Rightarrow>
          Inr (filter (\<lambda>(q, n). take (length (strip_slash p)) q \<noteq> strip_slash p) fs))"

text \<open>walk-sync: the entries below a directory, relative to it, directories with a
  trailing slash, in lexicographic order.\<close>

definition walk :: "filesystem \<Rightarrow> path \<Rightarrow> jsval + string list" where
  "walk fs base =
     (if stat fs base \<noteq> Some Directory then Inl (fs_error ''ENOENT'' base)
      else
        (let b = strip_slash base in
         Inr (sort (map (\<lambda>p. join_segments (drop (length b) p)
                               @ (if map_of fs p = Some Directory then ''/'' else []))
                    (filter (\<lambda>p. length b < length p \<and> take (length b) p = b)
                       (remdups (map fst fs)))))))"

subsection \<open>The world: files, working directory, console and class statics\<close>

text \<open>
  A blueprint class carries three static properties (\<^verbatim>\<open>blueprintName\<close>, \<^verbatim>\<open>addon\<close>, \<^verbatim>\<open>dir\<close>);
  a property that was never assigned is \<open>None\<close>. Classes are objects: the world holds
  the statics of each class under its reference, and maps of blueprints hold references.
  A static property is inherited along \<^verbatim>\<open>extends\<close>: \<open>superclasses\<close> is the chain of classes
  above a class, the nearest first; a read finds the first class of the chain, from the
  class itself, that has the property, and an assignment makes it a property of the
  class assigned to. Lines printed through \<^verbatim>\<open>ui\<close> are kept in order, without chalk's colour
  codes.
\<close>

record class_statics =
  blueprintName :: "string option"
  addon :: "string option"
  dir :: "path option"
  superclasses :: "nat list"

datatype ui_line = UiInfo string | UiWarn jsval | UiError jsval

record world =
  files :: filesystem
  cwd :: path
  ui :: "ui_line list"
  statics :: "nat \<Rightarrow> class_statics"

fun first_defined :: "(nat \<Rightarrow> 'a option) \<Rightarrow> nat list \<Rightarrow> 'a option" where
  "first_defined own [] = None"
| "first_defined own (c # cs) = (case own c of Some v \<Rightarrow> Some v | None \<Rightarrow> first_defined own cs)"

definition static_read :: "(class_statics \<Rightarrow> 'a option) \<Rightarrow> world \<Rightarrow> nat \<Rightarrow> 'a option" where
  "static_read property w r =
     first_defined (\<lambda>c. property (statics w c)) (r # superclasses (statics w r))"

text \<open>How an \<^verbatim>\<open>async\<close> method ends.\<close>

datatype completion = Resolved | Rejected jsval

text \<open>A blueprint instance: its class, and the three methods a subclass overrides. The
  methods of the base class are \<open>base_locals\<close> and \<open>noop_hook\<close> (lines 265 to 280).\<close>

record 'argv blueprint =
  cls :: nat
  locals :: "'argv \<Rightarrow> jsval + locals_data"
  postInstall :: "'argv \<Rightarrow> world \<Rightarrow> completion \<times> world"
  postUninstall :: "'argv \<Rightarrow> world \<Rightarrow> completion \<times> world"

definition base_locals :: "'argv \<Rightarrow> jsval + locals_data" where
  "base_locals argv = Inr []"

definition noop_hook :: "'argv \<Rightarrow> world \<Rightarrow> completion \<times> world" where
  "noop_hook argv w = (Resolved, w)"

definition ui_info :: "string \<Rightarrow> world \<Rightarrow> world" where
  "ui_info msg w = w\<lparr>ui := ui w @ [UiInfo msg]\<rparr>"

definition ui_warn :: "jsval \<Rightarrow> world \<Rightarrow> world" where
  "ui_warn v w = w\<lparr>ui := ui w @ [UiWarn v]\<rparr>"

definition ui_error :: "jsval \<Rightarrow> world \<Rightarrow> world" where
  "ui_error v w = w\<lparr>ui := ui w @ [UiError v]\<rparr>"

text \<open>The getter \<^verbatim>\<open>templateFiles\<close> (line 285); \<^verbatim>\<open>path.join\<close> throws on a \<^verbatim>\<open>dir\<close> that is
  undefined.\<close>

definition templateFiles :: "'argv blueprint \<Rightarrow> world \<Rightarrow> jsval + path" where
  "templateFiles bp w =
     (case static_read dir w (cls bp) of
        None \<Rightarrow> Inl (type_error ''Path must be a string. Received undefined'')
      | Some d \<Rightarrow> Inr (path_join d ''files''))"

text \<open>\<^verbatim>\<open>forEach\<close> with a callback that may throw: \<open>Some e\<close> is the exception that ended the
  loop, with the world as it was then.\<close>

fun for_each :: "('a \<Rightarrow> world \<Rightarrow> jsval option \<times> world) \<Rightarrow> 'a list \<Rightarrow> world \<Rightarrow> jsval option \<times> world" where
  "for_each f [] w = (None, w)"
| "for_each f (x # xs) w =
     (case f x w of
        (Some e, w') \<Rightarrow> (Some e, w')
      | (None, w') \<Rightarrow> for_each f xs w')"

subsection \<open>generate (lines 166 to 204)\<close>

text \<open>The callback of the loop over the walked template entries (lines 170 to 196). The
  template of the contents is compiled on line 189, before \<^verbatim>\<open>mkdirp.sync\<close>, and run on line
  194, after it, as the argument of \<^verbatim>\<open>writeFileSync\<close>. \<open>tf\<close> is the value of the getter
  \<^verbatim>\<open>templateFiles\<close>, which line 171 reads again for every entry; nothing in the loop assigns
  \<^verbatim>\<open>dir\<close>, so it is read once here.\<close>

definition generate_entry :: "engine \<Rightarrow> locals_data \<Rightarrow> path \<Rightarrow> path \<Rightarrow> string \<Rightarrow> world \<Rightarrow> jsval option \<times> world" where
  "generate_entry eng data tf dest relativepath w =
     (let absolutepath = path_resolve (path_join tf relativepath) in
      if isDirectory (files w) absolutepath then (None, w)
      else
        (case template eng (Some DunderRegExp) relativepath of
           Inl e \<Rightarrow> (Some e, w)
         | Inr filenameTemplate \<Rightarrow>
        (case filenameTemplate data of
           Inl e \<Rightarrow> (Some e, w)
         | Inr destRelativepath \<Rightarrow>
             (let destAbsolutepath = path_join dest destRelativepath in
              if existsSync (files w) destAbsolutepath
              then (None, ui_info (''already exists '' @ destRelativepath) w)
              else
                (case readFileSync (files w) absolutepath of
                   Inl e \<Rightarrow> (Some e, w)
                 | Inr contents \<Rightarrow>
                (case template eng (Some ErbRegExp) contents of
                   Inl e \<Rightarrow> (Some e, w)
                 | Inr contentsTemplate \<Rightarrow>
                (case mkdirp (path_dirname destAbsolutepath) (files w) of
                   Inl e \<Rightarrow> (Some e, w)
                 | Inr fs1 \<Rightarrow>
                (case contentsTemplate data of
                   Inl e \<Rightarrow> (Some e, w\<lparr>files := fs1\<rparr>)
                 | Inr out \<Rightarrow>
                (case writeFileSync fs1 destAbsolutepath out of
                   Inl e \<Rightarrow> (Some e, w\<lparr>files := fs1\<rparr>)
                 | Inr fs2 \<Rightarrow>
                     (None, ui_info (''create '' @ destRelativepath) (w\<lparr>files := fs2\<rparr>)))))))))))"

text \<open>The handler of lines 200 to 203: \<^verbatim>\<open>ui.error('postInstall failed:')\<close>, then
  \<^verbatim>\<open>ui.error(e.stack || e)\<close>. An exception inside the handler rejects the promise of
  \<^verbatim>\<open>generate\<close>.\<close>

definition postInstall_failed :: "jsval \<Rightarrow> world \<Rightarrow> completion \<times> world" where
  "postInstall_failed e w =
     (let w1 = ui_error (JStr ''postInstall failed:'') w in
      case get_stack e of
        Inl t \<Rightarrow> (Rejected t, w1)
      | Inr st \<Rightarrow> (Resolved, ui_error (if truthy st then st else e) w1))"

definition generate :: "engine \<Rightarrow> 'argv blueprint \<Rightarrow> 'argv \<Rightarrow> world \<Rightarrow> completion \<times> world" where
  "generate eng bp argv w =
     (case locals bp argv of
        Inl e \<Rightarrow> (Rejected e, w)
      | Inr data \<Rightarrow>
     (case templateFiles bp w of
        Inl e \<Rightarrow> (Rejected e, w)
      | Inr tf \<Rightarrow>
     (case walk (files w) tf of
        Inl e \<Rightarrow> (Rejected e, w)
      | Inr rels \<Rightarrow>
     (case for_each (generate_entry eng data tf (cwd w)) rels w of
        (Some e, w1) \<Rightarrow> (Rejected e, w1)
      | (None, w1) \<Rightarrow>
     (case postInstall bp argv w1 of
        (Resolved, w2) \<Rightarrow> (Resolved, w2)
      | (Rejected e, w2) \<Rightarrow> postInstall_failed e w2)))))"

subsection \<open>destroy (lines 210 to 260)\<close>

record candidate =
  destAbsolutepath :: path
  destRelativepath :: string
  absolutepath :: path

text \<open>The \<^verbatim>\<open>map\<close> of lines 220 to 225: every walked entry, directories too, has its name
  run as a template.\<close>

fun destination_paths :: "engine \<Rightarrow> locals_data \<Rightarrow> path \<Rightarrow> path \<Rightarrow> path list \<Rightarrow> jsval + candidate list" where
  "destination_paths eng data tf dest [] = Inr []"
| "destination_paths eng data tf dest (a # as) =
     (case apply_template eng (Some DunderRegExp) (path_relative tf a) data of
        Inl e \<Rightarrow> Inl e
      | Inr rel \<Rightarrow>
          (case destination_paths eng data tf dest as of
             Inl e \<Rightarrow> Inl e
           | Inr cs \<Rightarrow>
               Inr (\<lparr>destAbsolutepath = path_join dest rel, destRelativepath = rel,
                     absolutepath = a\<rparr> # cs)))"

text \<open>The first \<^verbatim>\<open>filter\<close> (lines 228 to 236).\<close>

fun existing_files :: "candidate list \<Rightarrow> world \<Rightarrow> candidate list \<times> world" where
  "existing_files [] w = ([], w)"
| "existing_files (c # cs) w =
     (if isDirectory (files w) (absolutepath c) then existing_files cs w
      else if existsSync (files w) (destAbsolutepath c) then
        (case existing_files cs w of (keep, w') \<Rightarrow> (c # keep, w'))
      else existing_files cs (ui_info (''missing '' @ destRelativepath c) w))"

text \<open>The second \<^verbatim>\<open>filter\<close> (lines 240 to 251): the template is read and compiled with no
  options, the destination file is read, then the template is run and the two are
  compared.\<close>

fun unmodified_files :: "engine \<Rightarrow> locals_data \<Rightarrow> candidate list \<Rightarrow> world \<Rightarrow> (jsval + candidate list) \<times> world" where
  "unmodified_files eng data [] w = (Inr [], w)"
| "unmodified_files eng data (c # cs) w =
     (case readFileSync (files w) (absolutepath c) of
        Inl e \<Rightarrow> (Inl e, w)
      | Inr templateSrc \<Rightarrow>
     (case template eng None templateSrc of
        Inl e \<Rightarrow> (Inl e, w)
      | Inr compiled \<Rightarrow>
     (case readFileSync (files w) (destAbsolutepath c) of
        Inl e \<Rightarrow> (Inl e, w)
      | Inr onDisk \<Rightarrow>
     (case compiled data of
        Inl e \<Rightarrow> (Inl e, w)
      | Inr rendered \<Rightarrow>
          (if onDisk = rendered then
             (case unmodified_files eng data cs (ui_info (''destroy '' @ destRelativepath c) w) of
                (Inl e, w') \<Rightarrow> (Inl e, w')
              | (Inr keep, w') \<Rightarrow> (Inr (c # keep), w'))
           else unmodified_files eng data cs (ui_info (''skipped '' @ destRelativepath c) w))))))"

text \<open>The loop of lines 256 to 258.\<close>

fun rimraf_each :: "path list \<Rightarrow> filesystem \<Rightarrow> jsval option \<times> filesystem" where
  "rimraf_each [] fs = (None, fs)"
| "rimraf_each (p # ps) fs =
     (case rimraf fs p of Inl e \<Rightarrow> (Some e, fs) | Inr fs' \<Rightarrow> rimraf_each ps fs')"

definition destroy :: "engine \<Rightarrow> 'argv blueprint \<Rightarrow> 'argv \<Rightarrow> world \<Rightarrow> completion \<times> world" where
  "destroy eng bp argv w =
     (case locals bp argv of
        Inl e \<Rightarrow> (Rejected e, w)
      | Inr data \<Rightarrow>
     (case templateFiles bp w of
        Inl e \<Rightarrow> (Rejected e, w)
      | Inr tf \<Rightarrow>
     (case walk (files w) tf of
        Inl e \<Rightarrow> (Rejected e, w)
      | Inr rels \<Rightarrow>
     (case destination_paths eng data tf (cwd w)
             (map (\<lambda>rel. path_resolve (path_join tf rel)) rels) of
        Inl e \<Rightarrow> (Rejected e, w)
      | Inr cands \<Rightarrow>
     (case existing_files cands w of (present, w1) \<Rightarrow>
     (case unmodified_files eng data present w1 of
        (Inl e, w2) \<Rightarrow> (Rejected e, w2)
      | (Inr filesToDelete, w2) \<Rightarrow>
     (case rimraf_each (map destAbsolutepath filesToDelete) (files w2) of
        (Some e, fs') \<Rightarrow> (Rejected e, w2\<lparr>files := fs'\<rparr>)
      | (None, fs') \<Rightarrow> postUninstall bp argv (w2\<lparr>files := fs'\<rparr>))))))))"


subsection \<open>Blueprint discovery (lines 64 to 124)\<close>

text \<open>
  \<^verbatim>\<open>tryRequire\<close> gives the exports of the module in a blueprint directory, or \<^verbatim>\<open>undefined\<close>
  when it cannot be loaded. The exports are either the class itself or an object whose
  \<^verbatim>\<open>default\<close> property is the class (an ES module after compilation). Line 104 assigns
  \<^verbatim>\<open>addon\<close> to the exports object; line 105 registers \<^verbatim>\<open>BlueprintClass.default || BlueprintClass\<close>.
  The loader is a parameter: what is on disk in a blueprint directory is not part of the
  file system model.
\<close>

datatype module_exports = ExportsClass nat | ExportsDefault nat

type_synonym loader = "path \<Rightarrow> module_exports option"

text \<open>A JavaScript object used as a map from names to classes is an association list in
  the order the keys were added; that integer-like keys come first when an object is
  enumerated, and the special key \<^verbatim>\<open>__proto__\<close>, are left out.\<close>

type_synonym blueprint_map = "(string \<times> nat) list"

fun exported :: "module_exports \<Rightarrow> nat" where
  "exported (ExportsClass r) = r"
| "exported (ExportsDefault r) = r"

definition set_addon :: "nat \<Rightarrow> string \<Rightarrow> world \<Rightarrow> world" where
  "set_addon r a w = w\<lparr>statics := (statics w)(r := (statics w r)\<lparr>addon := Some a\<rparr>)\<rparr>"

definition set_dir :: "nat \<Rightarrow> path \<Rightarrow> world \<Rightarrow> world" where
  "set_dir r d w = w\<lparr>statics := (statics w)(r := (statics w r)\<lparr>dir := Some d\<rparr>)\<rparr>"

definition readdirSync :: "filesystem \<Rightarrow> path \<Rightarrow> jsval + string list" where
  "readdirSync fs d =
     (case map_of fs (strip_slash d) of
        None \<Rightarrow> Inl (fs_error ''ENOENT'' d)
      | Some (File c) \<Rightarrow> Inl (fs_error ''ENOTDIR'' d)
      | Some Directory \<Rightarrow>
          Inr (map last (filter (\<lambda>p. p \<noteq> [] \<and> butlast p = strip_slash d) (remdups (map fst fs)))))"

text \<open>The \<^verbatim>\<open>reduce\<close> of lines 102 to 107.\<close>

fun load_blueprints :: "loader \<Rightarrow> string \<Rightarrow> path \<Rightarrow> string list \<Rightarrow> blueprint_map \<Rightarrow> world \<Rightarrow> (jsval + blueprint_map) \<times> world" where
  "load_blueprints ld addonName d [] acc w = (Inr acc, w)"
| "load_blueprints ld addonName d (dirname # rest) acc w =
     (case ld (path_join d dirname) of
        None \<Rightarrow> (Inl (type_error ''Cannot set property 'addon' of undefined''), w)
      | Some (ExportsClass r) \<Rightarrow>
          load_blueprints ld addonName d rest (AList.update dirname r acc) (set_addon r addonName w)
      | Some (ExportsDefault r) \<Rightarrow>
          load_blueprints ld addonName d rest (AList.update dirname r acc) w)"

text \<open>Lines 109 to 111.\<close>

fun capture_dirs :: "path \<Rightarrow> blueprint_map \<Rightarrow> world \<Rightarrow> world" where
  "capture_dirs d [] w = w"
| "capture_dirs d ((blueprintDir, r) # rest) w =
     capture_dirs d rest (set_dir r (path_join d blueprintDir) w)"

text \<open>Line 114: \<^verbatim>\<open>BlueprintClass.blueprintName || blueprintDir\<close>; the empty string is falsy.\<close>

definition invocation_name :: "world \<Rightarrow> nat \<Rightarrow> string \<Rightarrow> string" where
  "invocation_name w r blueprintDir =
     (case static_read blueprintName w r of
        None \<Rightarrow> blueprintDir
      | Some n \<Rightarrow> if n = [] then blueprintDir else n)"

fun mapKeys :: "(nat \<Rightarrow> string \<Rightarrow> string) \<Rightarrow> blueprint_map \<Rightarrow> blueprint_map \<Rightarrow> blueprint_map" where
  "mapKeys f [] acc = acc"
| "mapKeys f ((k, v) # rest) acc = mapKeys f rest (AList.update (f v k) v acc)"

text \<open>Lines 118 to 121. The colliding name is a key of \<^verbatim>\<open>blueprintsSoFar\<close>, and the loop
  only adds keys, so the read of line 119 finds it; \<^verbatim>\<open>undefined + ':'\<close> is the text
  \<^verbatim>\<open>undefined:\<close>.\<close>

definition addon_text :: "string option \<Rightarrow> string" where
  "addon_text a = (case a of None \<Rightarrow> ''undefined'' | Some n \<Rightarrow> n)"

fun scope_clobbered :: "world \<Rightarrow> string list \<Rightarrow> blueprint_map \<Rightarrow> blueprint_map" where
  "scope_clobbered w [] soFar = soFar"
| "scope_clobbered w (collidingBlueprintName # rest) soFar =
     (case map_of soFar collidingBlueprintName of
        None \<Rightarrow> scope_clobbered w rest soFar
      | Some clobberedBlueprint \<Rightarrow>
          scope_clobbered w rest
            (AList.update
               (addon_text (static_read addon w clobberedBlueprint) @ '':'' @ collidingBlueprintName)
               clobberedBlueprint soFar))"

text \<open>Line 123: \<^verbatim>\<open>assign(blueprintsSoFar, Blueprints)\<close>.\<close>

fun assign :: "blueprint_map \<Rightarrow> blueprint_map \<Rightarrow> blueprint_map" where
  "assign soFar [] = soFar"
| "assign soFar ((k, v) # rest) = assign (AList.update k v soFar) rest"

text \<open>The directories of lines 100 and 101.\<close>

definition blueprint_dirnames :: "filesystem \<Rightarrow> path \<Rightarrow> jsval + string list" where
  "blueprint_dirnames fs d =
     (case readdirSync fs d of
        Inl e \<Rightarrow> Inl e
      | Inr names \<Rightarrow> Inr (filter (\<lambda>dirname. isDirectory fs (path_join d dirname)) names))"

text \<open>
  The function changes \<^verbatim>\<open>blueprintsSoFar\<close> in place and returns it; when the directory
  does not exist it returns a fresh empty object instead (line 97). The result is the
  pair of the value returned and of \<^verbatim>\<open>blueprintsSoFar\<close> after the call.
\<close>

definition discoverBlueprintsForAddon :: "loader \<Rightarrow> blueprint_map \<Rightarrow> string \<Rightarrow> path \<Rightarrow> world \<Rightarrow> (jsval + blueprint_map \<times> blueprint_map) \<times> world" where
  "discoverBlueprintsForAddon ld blueprintsSoFar addonName d w =
     (if \<not> existsSync (files w) d then (Inr ([], blueprintsSoFar), w)
      else
        (case blueprint_dirnames (files w) d of
           Inl e \<Rightarrow> (Inl e, w)
         | Inr dirnames \<Rightarrow>
             (case load_blueprints ld addonName d dirnames [] w of
                (Inl e, w1) \<Rightarrow> (Inl e, w1)
              | (Inr loaded, w1) \<Rightarrow>
                  (let w2 = capture_dirs d loaded w1;
                       Blueprints = mapKeys (invocation_name w2) loaded [];
                       colliding = filter (\<lambda>k. k \<in> set (map fst blueprintsSoFar)) (map fst Blueprints);
                       result = assign (scope_clobbered w2 colliding blueprintsSoFar) Blueprints
                   in (Inr (result, result), w2)))))"

text \<open>\<^verbatim>\<open>findBlueprints\<close> (lines 64 to 72), over the addons that \<^verbatim>\<open>findAddons\<close> returned: each
  is its package name and its directory.\<close>

fun discover_all :: "loader \<Rightarrow> (string \<times> path) list \<Rightarrow> blueprint_map \<Rightarrow> world \<Rightarrow> (jsval + blueprint_map) \<times> world" where
  "discover_all ld [] blueprints w = (Inr blueprints, w)"
| "discover_all ld ((pkgName, addonDir) # rest) blueprints w =
     (case discoverBlueprintsForAddon ld blueprints pkgName (path_join addonDir ''blueprints'') w of
        (Inl e, w') \<Rightarrow> (Inl e, w')
      | (Inr (returned, blueprints'), w') \<Rightarrow> discover_all ld rest blueprints' w')"

definition findBlueprints :: "loader \<Rightarrow> (string \<times> path) list \<Rightarrow> world \<Rightarrow> (jsval + blueprint_map) \<times> world" where
  "findBlueprints ld addons w = discover_all ld addons [] w"

subsection \<open>configure and configureBlueprints (lines 78 to 90 and 129 to 134)\<close>

text \<open>
  The static \<^verbatim>\<open>configure\<close> of a class takes the yargs instance and the context with the
  invocation name merged in; it returns a yargs instance or throws. A subclass may
  override it, so the method of each class is a parameter of \<^verbatim>\<open>configureBlueprints\<close>.
\<close>

record invocation =
  isLocal :: bool
  invoked_as :: string

type_synonym 'y configure_method = "'y \<Rightarrow> invocation \<Rightarrow> world \<Rightarrow> (jsval + 'y) \<times> world"

text \<open>
  The method of \<^verbatim>\<open>Blueprint\<close> itself (lines 129 to 134) calls the method of its superclass
  \<^verbatim>\<open>Command\<close> and then \<^verbatim>\<open>updateStrings\<close> on the yargs instance that came back. Neither is in
  the sources; both are parameters.
\<close>

definition configure :: "'y configure_method \<Rightarrow> ((string \<times> string) list \<Rightarrow> 'y \<Rightarrow> world \<Rightarrow> (jsval + 'y) \<times> world) \<Rightarrow> 'y configure_method" where
  "configure super_configure updateStrings yargs ctx w =
     (case super_configure yargs ctx w of
        (Inl e, w1) \<Rightarrow> (Inl e, w1)
      | (Inr yargs1, w1) \<Rightarrow> updateStrings [(''Commands:'', ''Available Blueprints:'')] yargs1 w1)"

fun configureBlueprints :: "(nat \<Rightarrow> 'y configure_method) \<Rightarrow> blueprint_map \<Rightarrow> 'y \<Rightarrow> invocation \<Rightarrow> world \<Rightarrow> (jsval + 'y) \<times> world" where
  "configureBlueprints conf [] yargs ctx w = (Inr yargs, w)"
| "configureBlueprints conf ((name, BlueprintClass) # rest) yargs ctx w =
     (case conf BlueprintClass yargs (ctx\<lparr>invoked_as := name\<rparr>) w of
        (Inr yargs', w1) \<Rightarrow> configureBlueprints conf rest yargs' ctx w1
      | (Inl error, w1) \<Rightarrow>
          (let w2 = ui_warn (JStr (name @ '' blueprint failed to configure itself:'')) w1 in
           case get_stack error of
             Inl t \<Rightarrow> (Inl t, w2)
           | Inr st \<Rightarrow> configureBlueprints conf rest yargs ctx (ui_warn st w2)))"


subsection \<open>The routes file (lines 292 to 353)\<close>

text \<open>
  jscodeshift parses \<^verbatim>\<open>config/routes.js\<close> into a syntax tree and prints the tree back.
  Parser and printer are parameters. The tree keeps the node types that the filters of
  \<^verbatim>\<open>addRoute\<close> and \<^verbatim>\<open>removeRoute\<close> look at; a node of any other type is \<open>Other\<close> with its
  type and its fields in the order in which they are traversed, each field holding one
  node or an array of nodes. The third argument of \<open>MemberExpression\<close> is its flag
  \<^verbatim>\<open>computed\<close>.
\<close>

datatype ast =
    Identifier string
  | Literal jsval
  | MemberExpression ast ast bool
  | CallExpression ast "ast list"
  | NewExpression ast "ast list"
  | ExpressionStatement ast
  | Other string "field list"
and field = One ast | Many "ast list"

text \<open>The module: the exported function, here its parameters and the statements of its
  body, among items that are opaque. The parameters are identifiers.\<close>

datatype default_declaration = FunctionDeclaration "string list" "ast list" | OtherDeclaration string

datatype program_item = ExportDefaultDeclaration default_declaration | OtherItem string

type_synonym program = "program_item list"

text \<open>
  A filter matches a node when each property of the filter is an own property of the
  node and matches in turn, and a value matches by \<^verbatim>\<open>===\<close>. An array in the filter is
  matched index by index, so the node may have more arguments than the filter lists.
  The nodes with a property \<^verbatim>\<open>name\<close> are the identifiers, those with \<^verbatim>\<open>value\<close> the literals,
  those with \<^verbatim>\<open>object\<close> and \<^verbatim>\<open>property\<close> the member expressions, and those with \<^verbatim>\<open>callee\<close> and
  \<^verbatim>\<open>arguments\<close> the calls and the \<^verbatim>\<open>new\<close> expressions.
\<close>

fun has_name :: "string \<Rightarrow> ast \<Rightarrow> bool" where
  "has_name n (Identifier x) = (x = n)"
| "has_name n e = False"

fun has_literal :: "jsval \<Rightarrow> ast \<Rightarrow> bool" where
  "has_literal v (Literal x) = (x = v)"
| "has_literal v e = False"

fun arguments_match :: "jsval list \<Rightarrow> ast list \<Rightarrow> bool" where
  "arguments_match [] hs = True"
| "arguments_match (a # as) [] = False"
| "arguments_match (a # as) (h # hs) = (has_literal a h \<and> arguments_match as hs)"

text \<open>The filter of lines 300 to 310 and 341 to 351, on nodes of type
  \<^verbatim>\<open>ExpressionStatement\<close>.\<close>

fun is_route :: "string \<Rightarrow> string \<Rightarrow> jsval list \<Rightarrow> ast \<Rightarrow> bool" where
  "is_route routerArgName verb args (ExpressionStatement (CallExpression (MemberExpression obj property c) hs)) =
     (has_name routerArgName obj \<and> has_name verb property \<and> arguments_match args hs)"
| "is_route routerArgName verb args (ExpressionStatement (NewExpression (MemberExpression obj property c) hs)) =
     (has_name routerArgName obj \<and> has_name verb property \<and> arguments_match args hs)"
| "is_route routerArgName verb args s = False"

text \<open>The filter of lines 314 to 320.\<close>

fun is_router_invocation :: "string \<Rightarrow> ast \<Rightarrow> bool" where
  "is_router_invocation routerArgName (ExpressionStatement (CallExpression (MemberExpression obj property c) hs)) =
     has_name routerArgName obj"
| "is_router_invocation routerArgName (ExpressionStatement (NewExpression (MemberExpression obj property c) hs)) =
     has_name routerArgName obj"
| "is_router_invocation routerArgName s = False"

text \<open>
  \<^verbatim>\<open>find\<close> visits every node below its root, a node before what is below it and the fields
  of a node in their order, and keeps the nodes that satisfy the filter. \<open>find_in P n\<close>
  are the matches below \<open>n\<close>, \<open>find_list P ns\<close> those at or below the nodes of an array.
\<close>

fun find_in :: "(ast \<Rightarrow> bool) \<Rightarrow> ast \<Rightarrow> ast list"
  and find_list :: "(ast \<Rightarrow> bool) \<Rightarrow> ast list \<Rightarrow> ast list"
  and find_fields :: "(ast \<Rightarrow> bool) \<Rightarrow> field list \<Rightarrow> ast list" where
  "find_in P (Identifier x) = []"
| "find_in P (Literal v) = []"
| "find_in P (MemberExpression obj property c) =
     (if P obj then [obj] else []) @ find_in P obj
     @ (if P property then [property] else []) @ find_in P property"
| "find_in P (CallExpression callee args) =
     (if P callee then [callee] else []) @ find_in P callee @ find_list P args"
| "find_in P (NewExpression callee args) =
     (if P callee then [callee] else []) @ find_in P callee @ find_list P args"
| "find_in P (ExpressionStatement e) = (if P e then [e] else []) @ find_in P e"
| "find_in P (Other t fs) = find_fields P fs"
| "find_list P [] = []"
| "find_list P (n # ns) = (if P n then [n] else []) @ find_in P n @ find_list P ns"
| "find_fields P [] = []"
| "find_fields P (One n # fs) = (if P n then [n] else []) @ find_in P n @ find_fields P fs"
| "find_fields P (Many ns # fs) = find_list P ns @ find_fields P fs"

text \<open>
  \<^verbatim>\<open>at(length - 1).insertAfter(node)\<close>: the new node goes into the array that holds the last
  match, right after it. With no match nothing is inserted; when the last match is the
  single node of a field, not an element of an array, ast-types refuses to insert and
  throws. The last match is sought from the right, and below a node before the node
  itself.
\<close>

datatype 'a edited = NoMatch | Edited 'a | NotInArray

fun wrap :: "('a \<Rightarrow> 'b) \<Rightarrow> 'a edited \<Rightarrow> 'b edited" where
  "wrap f NoMatch = NoMatch"
| "wrap f (Edited x) = Edited (f x)"
| "wrap f NotInArray = NotInArray"

text \<open>A node held by a field on its own: when nothing matched below it, it is the last
  match itself if it satisfies the filter.\<close>

fun alone :: "(ast \<Rightarrow> bool) \<Rightarrow> ast \<Rightarrow> ast edited \<Rightarrow> ast edited" where
  "alone P n NoMatch = (if P n then NotInArray else NoMatch)"
| "alone P n r = r"

fun insert_below :: "(ast \<Rightarrow> bool) \<Rightarrow> ast \<Rightarrow> ast \<Rightarrow> ast edited"
  and insert_list :: "(ast \<Rightarrow> bool) \<Rightarrow> ast \<Rightarrow> ast list \<Rightarrow> ast list edited"
  and insert_fields :: "(ast \<Rightarrow> bool) \<Rightarrow> ast \<Rightarrow> field list \<Rightarrow> field list edited" where
  "insert_below P new (Identifier x) = NoMatch"
| "insert_below P new (Literal v) = NoMatch"
| "insert_below P new (MemberExpression obj property c) =
     (case alone P property (insert_below P new property) of
        NoMatch \<Rightarrow>
          wrap (\<lambda>obj'. MemberExpression obj' property c) (alone P obj (insert_below P new obj))
      | r \<Rightarrow> wrap (\<lambda>property'. MemberExpression obj property' c) r)"
| "insert_below P new (CallExpression callee args) =
     (case insert_list P new args of
        NoMatch \<Rightarrow>
          wrap (\<lambda>callee'. CallExpression callee' args) (alone P callee (insert_below P new callee))
      | r \<Rightarrow> wrap (CallExpression callee) r)"
| "insert_below P new (NewExpression callee args) =
     (case insert_list P new args of
        NoMatch \<Rightarrow>
          wrap (\<lambda>callee'. NewExpression callee' args) (alone P callee (insert_below P new callee))
      | r \<Rightarrow> wrap (NewExpression callee) r)"
| "insert_below P new (ExpressionStatement e) =
     wrap ExpressionStatement (alone P e (insert_below P new e))"
| "insert_below P new (Other t fs) = wrap (Other t) (insert_fields P new fs)"
| "insert_list P new [] = NoMatch"
| "insert_list P new (n # ns) =
     (case insert_list P new ns of
        NoMatch \<Rightarrow>
          (case insert_below P new n of
             NoMatch \<Rightarrow> if P n then Edited (n # new # ns) else NoMatch
           | r \<Rightarrow> wrap (\<lambda>n'. n' # ns) r)
      | r \<Rightarrow> wrap ((#) n) r)"
| "insert_fields P new [] = NoMatch"
| "insert_fields P new (One n # fs) =
     (case insert_fields P new fs of
        NoMatch \<Rightarrow> wrap (\<lambda>n'. One n' # fs) (alone P n (insert_below P new n))
      | r \<Rightarrow> wrap ((#) (One n)) r)"
| "insert_fields P new (Many ns # fs) =
     (case insert_fields P new fs of
        NoMatch \<Rightarrow> wrap (\<lambda>ns'. Many ns' # fs) (insert_list P new ns)
      | r \<Rightarrow> wrap ((#) (Many ns)) r)"

text \<open>\<^verbatim>\<open>ast.find(j.ExportDefaultDeclaration).get().value.declaration\<close>, and the tree with the
  body of that declaration replaced.\<close>

fun export_default :: "program \<Rightarrow> default_declaration option" where
  "export_default [] = None"
| "export_default (ExportDefaultDeclaration d # items) = Some d"
| "export_default (OtherItem x # items) = export_default items"

fun with_body :: "ast list \<Rightarrow> program \<Rightarrow> program" where
  "with_body body [] = []"
| "with_body body (ExportDefaultDeclaration (FunctionDeclaration params b) # items) =
     ExportDefaultDeclaration (FunctionDeclaration params body) # items"
| "with_body body (ExportDefaultDeclaration (OtherDeclaration x) # items) =
     ExportDefaultDeclaration (OtherDeclaration x) # items"
| "with_body body (OtherItem x # items) = OtherItem x # with_body body items"

text \<open>Lines 297 and 298: the exported function and the name of its first parameter.\<close>

definition draw_routes_function :: "program \<Rightarrow> jsval + string \<times> ast list" where
  "draw_routes_function ast =
     (case export_default ast of
        None \<Rightarrow> Inl (JError ''Error'' ''You cannot call get on a collection with no paths'' [])
      | Some (OtherDeclaration x) \<Rightarrow> Inl (type_error ''Cannot read property '0' of undefined'')
      | Some (FunctionDeclaration [] body) \<Rightarrow>
          Inl (type_error ''Cannot read property 'name' of undefined'')
      | Some (FunctionDeclaration (routerArgName # params) body) \<Rightarrow> Inr (routerArgName, body))"

text \<open>The arguments of the filter: \<^verbatim>\<open>[urlPattern, actionPath].concat(args)\<close>; an
  \<^verbatim>\<open>actionPath\<close> that was not passed is \<^verbatim>\<open>undefined\<close>.\<close>

definition route_arguments :: "string \<Rightarrow> string option \<Rightarrow> jsval list \<Rightarrow> jsval list" where
  "route_arguments urlPattern actionPath args =
     [JStr urlPattern, (case actionPath of None \<Rightarrow> JUndefined | Some a \<Rightarrow> JStr a)] @ args"

fun is_string :: "jsval \<Rightarrow> bool" where
  "is_string (JStr s) = True"
| "is_string v = False"

definition not_in_array :: jsval where
  "not_in_array = JError ''AssertionError'' ''the parent of the node is not an array'' []"

text \<open>
  Lines 297 to 326 on the tree: \<open>Inr None\<close> is the return of line 312, \<open>Inr (Some ast')\<close>
  the tree that line 327 prints. Line 323 builds the arguments of the new call from
  \<^verbatim>\<open>args\<close> alone; \<^verbatim>\<open>j.stringLiteral\<close> refuses a value that is not a string.
\<close>

definition addRoute_ast :: "string \<Rightarrow> string \<Rightarrow> string option \<Rightarrow> jsval list \<Rightarrow> program \<Rightarrow> jsval + program option" where
  "addRoute_ast verb urlPattern actionPath args ast =
     (case draw_routes_function ast of
        Inl e \<Rightarrow> Inl e
      | Inr (routerArgName, body) \<Rightarrow>
          if find_list (is_route routerArgName verb (route_arguments urlPattern actionPath args)) body \<noteq> []
          then Inr None
          else if \<not> list_all is_string args
          then Inl (JError ''Error'' ''no value or default function given for field value of StringLiteral'' [])
          else
            (let routerMethodExpression =
                   MemberExpression (Identifier routerArgName) (Identifier verb) False;
                 routerArguments = map Literal args;
                 newRoute = ExpressionStatement (CallExpression routerMethodExpression routerArguments)
             in case insert_list (is_router_invocation routerArgName) newRoute body of
                  NoMatch \<Rightarrow> Inr (Some ast)
                | NotInArray \<Rightarrow> Inl not_in_array
                | Edited body' \<Rightarrow> Inr (Some (with_body body' ast))))"

definition routes_path :: "world \<Rightarrow> path" where
  "routes_path w = path_join (path_join (cwd w) ''config'') ''routes.js''"

definition addRoute :: "(string \<Rightarrow> jsval + program) \<Rightarrow> (bool \<Rightarrow> program \<Rightarrow> string) \<Rightarrow> string \<Rightarrow> string \<Rightarrow> string option \<Rightarrow> jsval list \<Rightarrow> world \<Rightarrow> jsval option \<times> world" where
  "addRoute parse print verb urlPattern actionPath args w =
     (case readFileSync (files w) (routes_path w) of
        Inl e \<Rightarrow> (Some e, w)
      | Inr routesSource \<Rightarrow>
     (case parse routesSource of
        Inl e \<Rightarrow> (Some e, w)
      | Inr ast \<Rightarrow>
     (case addRoute_ast verb urlPattern actionPath args ast of
        Inl e \<Rightarrow> (Some e, w)
      | Inr None \<Rightarrow> (None, w)
      | Inr (Some ast') \<Rightarrow>
          (case writeFileSync (files w) (routes_path w) (print True ast') of
             Inl e \<Rightarrow> (Some e, w)
           | Inr fs' \<Rightarrow> (None, w\<lparr>files := fs'\<rparr>)))))"

text \<open>
  \<^verbatim>\<open>removeRoute\<close> (lines 333 to 353). What \<^verbatim>\<open>find(...).remove()\<close> leaves of the body, of a
  statement that loses its only child in particular, is decided inside jscodeshift;
  \<open>remove\<close> is a parameter that takes the filter and the body.
\<close>

definition removeRoute :: "(string \<Rightarrow> jsval + program) \<Rightarrow> (bool \<Rightarrow> program \<Rightarrow> string) \<Rightarrow> ((ast \<Rightarrow> bool) \<Rightarrow> ast list \<Rightarrow> jsval + ast list) \<Rightarrow> string \<Rightarrow> string \<Rightarrow> string option \<Rightarrow> jsval list \<Rightarrow> world \<Rightarrow> jsval option \<times> world" where
  "removeRoute parse print remove verb urlPattern actionPath args w =
     (case readFileSync (files w) (routes_path w) of
        Inl e \<Rightarrow> (Some e, w)
      | Inr routesSource \<Rightarrow>
     (case parse routesSource of
        Inl e \<Rightarrow> (Some e, w)
      | Inr ast \<Rightarrow>
     (case draw_routes_function ast of
        Inl e \<Rightarrow> (Some e, w)
      | Inr (routerArgName, body) \<Rightarrow>
     (case remove (is_route routerArgName verb (route_arguments urlPattern actionPath args)) body of
        Inl e \<Rightarrow> (Some e, w)
      | Inr body' \<Rightarrow>
          (case writeFileSync (files w) (routes_path w) (print False (with_body body' ast)) of
             Inl e \<Rightarrow> (Some e, w)
           | Inr fs' \<Rightarrow> (None, w\<lparr>files := fs'\<rparr>))))))"

text \<open>A node is below another when it is held by one of its fields, or below a node that
  is.\<close>

fun field_nodes :: "field \<Rightarrow> ast list" where
  "field_nodes (One n) = [n]"
| "field_nodes (Many ns) = ns"

fun children :: "ast \<Rightarrow> ast list" where
  "children (Identifier x) = []"
| "children (Literal v) = []"
| "children (MemberExpression obj property c) = [obj, property]"
| "children (CallExpression callee args) = callee # args"
| "children (NewExpression callee args) = callee # args"
| "children (ExpressionStatement e) = [e]"
| "children (Other t fs) = concat (map field_nodes fs)"

inductive below :: "ast \<Rightarrow> ast \<Rightarrow> bool" where
  child: "d \<in> set (children n) \<Longrightarrow> below d n"
| deeper: "c \<in> set (children n) \<Longrightarrow> below d c \<Longrightarrow> below d n"

definition within :: "ast \<Rightarrow> ast list \<Rightarrow> bool" where
  "within d body \<longleftrightarrow> d \<in> set body \<or> (\<exists>n \<in> set body. below d n)"


subsection \<open>What destroy is expected to do\<close>











subsection \<open>Concrete inputs\<close>

text \<open>The statics of a class of which only \<^verbatim>\<open>dir\<close> was assigned.\<close>

definition statics_in :: "path \<Rightarrow> nat \<Rightarrow> class_statics" where
  "statics_in d r = \<lparr>blueprintName = None, addon = None, dir = Some d, superclasses = []\<rparr>"

text \<open>A blueprint in \<^verbatim>\<open>/bp\<close> with one template, \<^verbatim>\<open>files/__n__.js\<close>, a project in \<^verbatim>\<open>/proj\<close> that
  already has a file \<^verbatim>\<open>bob.js\<close>, and locals that give \<^verbatim>\<open>n\<close> the value \<^verbatim>\<open>bob\<close>.\<close>

definition demo_world :: world where
  "demo_world =
     \<lparr>files = [([], Directory), ([''bp''], Directory), ([''bp'', ''files''], Directory),
               ([''bp'', ''files'', ''__n__.js''], File ''hi <%= n %>''),
               ([''proj''], Directory), ([''proj'', ''bob.js''], File ''mine'')],
      cwd = [''proj''], ui = [], statics = statics_in [''bp'']\<rparr>"

definition demo_blueprint :: "unit blueprint" where
  "demo_blueprint =
     \<lparr>cls = 0, locals = (\<lambda>a. Inr [(''n'', JStr ''bob'')]),
      postInstall = noop_hook, postUninstall = noop_hook\<rparr>"

text \<open>The same blueprint with a second template, \<^verbatim>\<open>files/z.js\<close>, whose contents read a name
  that the locals do not have.\<close>

definition late_throw_world :: world where
  "late_throw_world =
     \<lparr>files = [([], Directory), ([''bp''], Directory), ([''bp'', ''files''], Directory),
               ([''bp'', ''files'', ''__n__.js''], File ''hi <%= n %>''),
               ([''bp'', ''files'', ''z.js''], File ''<%= zz %>''),
               ([''proj''], Directory), ([''proj'', ''bob.js''], File ''mine'')],
      cwd = [''proj''], ui = [], statics = statics_in [''bp'']\<rparr>"

text \<open>The same with the second template named \<^verbatim>\<open>A.js\<close>, which the walk lists first.\<close>

definition early_throw_world :: world where
  "early_throw_world =
     \<lparr>files = [([], Directory), ([''bp''], Directory), ([''bp'', ''files''], Directory),
               ([''bp'', ''files'', ''A.js''], File ''<%= zz %>''),
               ([''bp'', ''files'', ''__n__.js''], File ''hi <%= n %>''),
               ([''proj''], Directory), ([''proj'', ''bob.js''], File ''mine'')],
      cwd = [''proj''], ui = [], statics = statics_in [''bp'']\<rparr>"



text \<open>A blueprint whose only template, \<^verbatim>\<open>files/a.js\<close>, holds the text \<^verbatim>\<open>x ${n} y\<close>, and an
  empty project.\<close>

definition literal_world :: world where
  "literal_world =
     \<lparr>files = [([], Directory), ([''bp''], Directory), ([''bp'', ''files''], Directory),
               ([''bp'', ''files'', ''a.js''], File ''x ${n} y''),
               ([''proj''], Directory)],
      cwd = [''proj''], ui = [], statics = statics_in [''bp'']\<rparr>"

text \<open>A blueprint whose \<^verbatim>\<open>postInstall\<close> rejects with \<^verbatim>\<open>undefined\<close> (\<^verbatim>\<open>Promise.reject()\<close>), and a
  static \<^verbatim>\<open>configure\<close> that throws \<^verbatim>\<open>undefined\<close> for class 1 and adds the invocation name to
  the yargs instance (here a list of names) for every other class.\<close>

definition rejecting_blueprint :: "unit blueprint" where
  "rejecting_blueprint =
     \<lparr>cls = 0, locals = (\<lambda>a. Inr [(''n'', JStr ''bob'')]),
      postInstall = (\<lambda>a w. (Rejected JUndefined, w)), postUninstall = noop_hook\<rparr>"

definition demo_configure :: "nat \<Rightarrow> string list configure_method" where
  "demo_configure r yargs ctx w =
     (if r = 1 then (Inl JUndefined, w) else (Inr (yargs @ [invoked_as ctx]), w))"

text \<open>Three addons. Each has a blueprint directory \<^verbatim>\<open>x\<close> whose module has a default export
  (classes 1, 2 and 3); the first also has a directory \<^verbatim>\<open>y\<close> whose module exports its class
  itself (class 4, with \<^verbatim>\<open>blueprintName = 'route'\<close>). The four classes extend class 0,
  \<^verbatim>\<open>Blueprint\<close> itself, which has no static assigned.\<close>

definition addons_world :: world where
  "addons_world =
     \<lparr>files = [([], Directory),
               ([''a''], Directory), ([''a'', ''blueprints''], Directory),
               ([''a'', ''blueprints'', ''x''], Directory),
               ([''a'', ''blueprints'', ''y''], Directory),
               ([''b''], Directory), ([''b'', ''blueprints''], Directory),
               ([''b'', ''blueprints'', ''x''], Directory),
               ([''c''], Directory), ([''c'', ''blueprints''], Directory),
               ([''c'', ''blueprints'', ''x''], Directory)],
      cwd = [''proj''], ui = [],
      statics = (\<lambda>r. \<lparr>blueprintName = (if r = 4 then Some ''route'' else None),
                         addon = None, dir = None,
                         superclasses = (if r = 0 then [] else [0])\<rparr>)\<rparr>"

definition default_loader :: loader where
  "default_loader p =
     (if p = [''a'', ''blueprints'', ''x''] then Some (ExportsDefault 1)
      else if p = [''b'', ''blueprints'', ''x''] then Some (ExportsDefault 2)
      else if p = [''c'', ''blueprints'', ''x''] then Some (ExportsDefault 3)
      else if p = [''a'', ''blueprints'', ''y''] then Some (ExportsClass 4)
      else None)"

text \<open>The same three addons with modules that export their class itself.\<close>

definition class_loader :: loader where
  "class_loader p =
     (if p = [''a'', ''blueprints'', ''x''] then Some (ExportsClass 1)
      else if p = [''b'', ''blueprints'', ''x''] then Some (ExportsClass 2)
      else if p = [''c'', ''blueprints'', ''x''] then Some (ExportsClass 3)
      else if p = [''a'', ''blueprints'', ''y''] then Some (ExportsClass 4)
      else None)"

text \<open>A routes file whose exported function takes \<^verbatim>\<open>router\<close> and holds the single route
  \<^verbatim>\<open>router.get('/', 'index')\<close>; a parser that knows this one file and a printer that tells
  this tree from every other.\<close>

definition demo_routes :: program where
  "demo_routes =
     [OtherItem ''import'',
      ExportDefaultDeclaration
        (FunctionDeclaration [''router'']
           [ExpressionStatement
              (CallExpression (MemberExpression (Identifier ''router'') (Identifier ''get'') False)
                 [Literal (JStr ''/''), Literal (JStr ''index'')]),
            Other ''ReturnStatement'' []])]"

definition demo_parse :: "string \<Rightarrow> jsval + program" where
  "demo_parse s = (if s = ''routes'' then Inr demo_routes
                   else Inl (JError ''SyntaxError'' ''Unexpected token'' []))"

definition demo_print :: "bool \<Rightarrow> program \<Rightarrow> string" where
  "demo_print single ast = (if ast = demo_routes then ''routes'' else ''changed'')"

definition routes_world :: world where
  "routes_world =
     \<lparr>files = [([], Directory), ([''proj''], Directory), ([''proj'', ''config''], Directory),
               ([''proj'', ''config'', ''routes.js''], File ''routes'')],
      cwd = [''proj''], ui = [],
      statics = (\<lambda>r. \<lparr>blueprintName = None, addon = None, dir = None, superclasses = []\<rparr>)\<rparr>"

text \<open>A routes file whose only route is \<^verbatim>\<open>router.get('/foo')\<close>, with its parser and
  printer.\<close>

definition foo_routes :: program where
  "foo_routes =
     [ExportDefaultDeclaration
        (FunctionDeclaration [''router'']
           [ExpressionStatement
              (CallExpression (MemberExpression (Identifier ''router'') (Identifier ''get'') False)
                 [Literal (JStr ''/foo'')])])]"

definition foo_parse :: "string \<Rightarrow> jsval + program" where
  "foo_parse s = (if s = ''foo'' then Inr foo_routes
                  else Inl (JError ''SyntaxError'' ''Unexpected token'' []))"

definition foo_print :: "bool \<Rightarrow> program \<Rightarrow> string" where
  "foo_print single ast = (if ast = foo_routes then ''foo'' else ''changed'')"

definition foo_world :: world where
  "foo_world =
     \<lparr>files = [([], Directory), ([''proj''], Directory), ([''proj'', ''config''], Directory),
               ([''proj'', ''config'', ''routes.js''], File ''foo'')],
      cwd = [''proj''], ui = [],
      statics = (\<lambda>r. \<lparr>blueprintName = None, addon = None, dir = None, superclasses = []\<rparr>)\<rparr>"


section \<open>Properties\<close>

subsection \<open>generate only adds to the file system\<close>

lemma ensure_dir_grows:
  "ensure_dir p fs = Inr fs' \<Longrightarrow> map_of fs q = Some n \<Longrightarrow> map_of fs' q = Some n"
  by (auto simp: ensure_dir_def AList.update_conv' split: option.splits node.splits)

lemma mkdirp_from_grows:
  "mkdirp_from pre ss fs = Inr fs' \<Longrightarrow> map_of fs q = Some n \<Longrightarrow> map_of fs' q = Some n"
proof (induction ss arbitrary: pre fs)
  case Nil
  then show ?case by (auto dest: ensure_dir_grows)
next
  case (Cons s ss)
  then show ?case
    by (auto split: sum.splits dest: ensure_dir_grows)
qed

lemma mkdirp_grows:
  "mkdirp p fs = Inr fs' \<Longrightarrow> map_of fs q = Some n \<Longrightarrow> map_of fs' q = Some n"
  unfolding mkdirp_def by (rule mkdirp_from_grows)

lemma writeFileSync_other:
  "writeFileSync fs p c = Inr fs' \<Longrightarrow> q \<noteq> p \<Longrightarrow> map_of fs' q = map_of fs q"
  by (auto simp: writeFileSync_def AList.update_conv' split: if_splits option.splits node.splits)

lemma writeFileSync_no_slash: "writeFileSync fs p c = Inr fs' \<Longrightarrow> \<not> has_slash p"
  by (auto simp: writeFileSync_def split: if_splits option.splits node.splits)

lemma write_after_mkdirp:
  assumes "mkdirp d fs = Inr fs1" and "writeFileSync fs1 p c = Inr fs2"
    and "\<not> existsSync fs p" and "map_of fs q = Some n"
  shows "map_of fs2 q = Some n"
proof -
  from assms(2) have "\<not> has_slash p" by (rule writeFileSync_no_slash)
  with assms(3) have "map_of fs p = None" by (simp add: existsSync_def stat_def)
  with assms(4) have "q \<noteq> p" by auto
  with assms(2) have "map_of fs2 q = map_of fs1 q" by (rule writeFileSync_other)
  also from assms(1,4) have "map_of fs1 q = Some n" by (rule mkdirp_grows)
  finally show ?thesis .
qed

lemma readFileSync_stat: "readFileSync fs p = Inr c \<longleftrightarrow> stat fs p = Some (File c)"
  by (auto simp: readFileSync_def stat_def strip_slash_def
      split: option.splits node.splits if_splits)

lemma stat_grows:
  assumes "\<forall>q n. map_of fs q = Some n \<longrightarrow> map_of fs' q = Some n" and "stat fs p = Some n"
  shows "stat fs' p = Some n"
  using assms by (auto simp: stat_def split: if_splits option.splits node.splits)

lemma generate_entry_grows:
  assumes "generate_entry eng data tf dest rel w = (r, w')"
    and "map_of (files w) q = Some n"
  shows "map_of (files w') q = Some n"
  using assms
  by (auto simp: generate_entry_def Let_def ui_info_def
      split: if_splits sum.splits dest: mkdirp_grows write_after_mkdirp)

lemma generate_entry_ui:
  "generate_entry eng data tf dest rel w = (r, w') \<Longrightarrow> set (ui w) \<subseteq> set (ui w')"
  by (auto simp: generate_entry_def Let_def ui_info_def split: if_splits sum.splits)

lemma for_each_generate_grows:
  "for_each (generate_entry eng data tf dest) rels w = (r, w') \<Longrightarrow>
   map_of (files w) q = Some n \<Longrightarrow> map_of (files w') q = Some n"
proof (induction rels arbitrary: w)
  case Nil
  then show ?case by simp
next
  case (Cons x xs)
  obtain r1 w1 where step: "generate_entry eng data tf dest x w = (r1, w1)"
    by (cases "generate_entry eng data tf dest x w")
  from step Cons.prems(2) have keep: "map_of (files w1) q = Some n"
    by (rule generate_entry_grows)
  show ?case
  proof (cases r1)
    case None
    with step Cons.prems(1) have "for_each (generate_entry eng data tf dest) xs w1 = (r, w')"
      by simp
    then show ?thesis using keep by (rule Cons.IH)
  next
    case (Some e)
    with step Cons.prems(1) have "w' = w1" by simp
    with keep show ?thesis by simp
  qed
qed

lemma for_each_generate_ui:
  "for_each (generate_entry eng data tf dest) rels w = (r, w') \<Longrightarrow> set (ui w) \<subseteq> set (ui w')"
proof (induction rels arbitrary: w)
  case Nil
  then show ?case by simp
next
  case (Cons x xs)
  obtain r1 w1 where step: "generate_entry eng data tf dest x w = (r1, w1)"
    by (cases "generate_entry eng data tf dest x w")
  then have sub: "set (ui w) \<subseteq> set (ui w1)" by (rule generate_entry_ui)
  show ?case
  proof (cases r1)
    case None
    with step Cons.prems have "for_each (generate_entry eng data tf dest) xs w1 = (r, w')"
      by simp
    then have "set (ui w1) \<subseteq> set (ui w')" by (rule Cons.IH)
    with sub show ?thesis by blast
  next
    case (Some e)
    with step Cons.prems have "w' = w1" by simp
    with sub show ?thesis by simp
  qed
qed

lemma for_each_append:
  "for_each f (xs @ ys) w =
     (case for_each f xs w of (Some e, w1) \<Rightarrow> (Some e, w1) | (None, w1) \<Rightarrow> for_each f ys w1)"
  by (induction xs arbitrary: w) (auto split: prod.splits option.splits)

lemma apply_template_Inr:
  "apply_template eng opts s data = Inr d \<longleftrightarrow>
     (\<exists>compiled. template eng opts s = Inr compiled \<and> compiled data = Inr d)"
  by (auto simp: apply_template_def split: sum.splits)

lemma generate_entry_reports:
  assumes "readFileSync (files w) (path_resolve (path_join tf rel)) = Inr src"
    and "apply_template eng (Some DunderRegExp) rel data = Inr destRel"
    and "existsSync (files w) (path_join dest destRel)"
  shows "generate_entry eng data tf dest rel w = (None, ui_info (''already exists '' @ destRel) w)"
proof -
  from assms(1) have "\<not> isDirectory (files w) (path_resolve (path_join tf rel))"
    by (simp add: readFileSync_stat isDirectory_def)
  moreover from assms(2) obtain compiled
    where "template eng (Some DunderRegExp) rel = Inr compiled" "compiled data = Inr destRel"
    by (auto simp: apply_template_Inr)
  ultimately show ?thesis using assms(3) by (simp add: generate_entry_def Let_def)
qed

lemma readFileSync_grows:
  assumes "\<forall>q n. map_of fs q = Some n \<longrightarrow> map_of fs' q = Some n" and "readFileSync fs p = Inr c"
  shows "readFileSync fs' p = Inr c"
proof -
  from assms(2) have "stat fs p = Some (File c)"
    by (simp add: readFileSync_stat)
  with assms(1) have "stat fs' p = Some (File c)" by (rule stat_grows)
  then show ?thesis by (simp add: readFileSync_stat)
qed

lemma existsSync_grows:
  assumes "\<forall>q n. map_of fs q = Some n \<longrightarrow> map_of fs' q = Some n" and "existsSync fs p"
  shows "existsSync fs' p"
proof -
  from assms(2) obtain n where "stat fs p = Some n" by (auto simp: existsSync_def)
  with assms(1) have "stat fs' p = Some n" by (rule stat_grows)
  then show ?thesis by (simp add: existsSync_def)
qed

lemma postInstall_failed_frame:
  "postInstall_failed e v = (c, v') \<Longrightarrow> files v' = files v \<and> set (ui v) \<subseteq> set (ui v')"
  by (auto simp: postInstall_failed_def Let_def ui_error_def split: sum.splits)

text \<open>What the loop of \<^verbatim>\<open>generate\<close> left is still there when \<^verbatim>\<open>generate\<close> is over, if the hook
  keeps it.\<close>

lemma generate_after_loop:
  assumes run: "generate eng bp argv w = (c, w')"
    and hook: "\<forall>v p n. map_of (files v) p = Some n \<longrightarrow>
                 map_of (files (snd (postInstall bp argv v))) p = Some n"
    and lines: "\<forall>v. set (ui v) \<subseteq> set (ui (snd (postInstall bp argv v)))"
    and data: "locals bp argv = Inr data" and tf: "templateFiles bp w = Inr tf"
    and rels: "walk (files w) tf = Inr rels"
    and loop: "for_each (generate_entry eng data tf (cwd w)) rels w = (r, w1)"
  shows "(\<forall>p n. map_of (files w1) p = Some n \<longrightarrow> map_of (files w') p = Some n)
         \<and> set (ui w1) \<subseteq> set (ui w')"
proof (cases r)
  case (Some e)
  with run data tf rels loop have "w' = w1" by (simp add: generate_def)
  then show ?thesis by simp
next
  case None
  obtain c2 w2 where h: "postInstall bp argv w1 = (c2, w2)"
    by (cases "postInstall bp argv w1")
  from hook have "\<forall>p n. map_of (files w1) p = Some n \<longrightarrow>
      map_of (files (snd (postInstall bp argv w1))) p = Some n"
    by (rule spec)
  with h have w2: "\<forall>p n. map_of (files w1) p = Some n \<longrightarrow> map_of (files w2) p = Some n"
    by simp
  from lines have "set (ui w1) \<subseteq> set (ui (snd (postInstall bp argv w1)))" by (rule spec)
  with h have u2: "set (ui w1) \<subseteq> set (ui w2)" by simp
  have fin: "files w' = files w2 \<and> set (ui w2) \<subseteq> set (ui w')"
  proof (cases c2)
    case Resolved
    with run data tf rels loop None h show ?thesis by (simp add: generate_def)
  next
    case (Rejected e)
    with run data tf rels loop None h have "postInstall_failed e w2 = (c, w')"
      by (simp add: generate_def)
    then show ?thesis by (rule postInstall_failed_frame)
  qed
  from w2 u2 fin show ?thesis by auto
qed

text \<open>
  Claim C8 says that \<^verbatim>\<open>generate\<close> leaves a file whose destination exists as it is and
  reports it as already existing. The loop of lines 170 to 196 stops at the first template
  file that throws: in \<open>early_throw_world\<close> the template \<^verbatim>\<open>A.js\<close> is walked before \<^verbatim>\<open>__n__.js\<close>
  and reads a name that the locals do not have, so \<^verbatim>\<open>generate\<close> rejects with the
  ReferenceError before it gets to \<^verbatim>\<open>__n__.js\<close>, whose destination \<^verbatim>\<open>bob.js\<close> exists, and the
  console stays empty.
\<close>

theorem existing_file_not_reported_after_throw:
  "walk (files early_throw_world) [''bp'', ''files''] = Inr [''A.js'', ''__n__.js'']
   \<and> apply_template lookup_engine (Some DunderRegExp) ''__n__.js'' [(''n'', JStr ''bob'')]
       = Inr ''bob.js''
   \<and> existsSync (files early_throw_world) (path_join (cwd early_throw_world) ''bob.js'')
   \<and> fst (generate lookup_engine demo_blueprint () early_throw_world)
       = Rejected (JError ''ReferenceError'' ''zz is not defined'' [])
   \<and> ui (snd (generate lookup_engine demo_blueprint () early_throw_world)) = []"
  by code_simp

text \<open>
  Claim C8, amended. Whatever way \<^verbatim>\<open>generate\<close> ends, every path that held a file or a
  directory before holds the same node after, provided the \<^verbatim>\<open>postInstall\<close> hook of the
  blueprint itself keeps what is on disk and takes no line back from the console (the
  hook of the base class does nothing). A template file whose interpolated destination
  exists before the run has its line \<^verbatim>\<open>already exists <destination>\<close> on the console
  whenever the loop gets to it, that is when no template file walked before it throws;
  this is so for every such template file when \<^verbatim>\<open>generate\<close> resolves.
\<close>

theorem generate_never_overwrites:
  assumes run: "generate eng bp argv w = (c, w')"
    and hook: "\<forall>v p n. map_of (files v) p = Some n \<longrightarrow>
                 map_of (files (snd (postInstall bp argv v))) p = Some n"
    and lines: "\<forall>v. set (ui v) \<subseteq> set (ui (snd (postInstall bp argv v)))"
  shows "(\<forall>p n. map_of (files w) p = Some n \<longrightarrow> map_of (files w') p = Some n) \<and>
         (\<forall>data tf pre rel post src destRel.
            locals bp argv = Inr data \<longrightarrow> templateFiles bp w = Inr tf \<longrightarrow>
            walk (files w) tf = Inr (pre @ rel # post) \<longrightarrow>
            fst (for_each (generate_entry eng data tf (cwd w)) pre w) = None \<longrightarrow>
            readFileSync (files w) (path_resolve (path_join tf rel)) = Inr src \<longrightarrow>
            apply_template eng (Some DunderRegExp) rel data = Inr destRel \<longrightarrow>
            existsSync (files w) (path_join (cwd w) destRel) \<longrightarrow>
            UiInfo (''already exists '' @ destRel) \<in> set (ui w')) \<and>
         (\<forall>data tf rels src destRel.
            locals bp argv = Inr data \<longrightarrow> templateFiles bp w = Inr tf \<longrightarrow>
            walk (files w) tf = Inr rels \<longrightarrow> c = Resolved \<longrightarrow>
            (\<forall>rel \<in> set rels.
               readFileSync (files w) (path_resolve (path_join tf rel)) = Inr src \<longrightarrow>
               apply_template eng (Some DunderRegExp) rel data = Inr destRel \<longrightarrow>
               existsSync (files w) (path_join (cwd w) destRel) \<longrightarrow>
               UiInfo (''already exists '' @ destRel) \<in> set (ui w')))"
proof (cases "locals bp argv")
  case (Inl e)
  with run show ?thesis by (simp add: generate_def)
next
  case data: (Inr data)
  show ?thesis
  proof (cases "templateFiles bp w")
    case (Inl e)
    with run data show ?thesis by (simp add: generate_def)
  next
    case tf: (Inr tf)
    show ?thesis
    proof (cases "walk (files w) tf")
      case (Inl e)
      with run data tf show ?thesis by (simp add: generate_def)
    next
      case rels: (Inr rels)
      let ?f = "generate_entry eng data tf (cwd w)"
      obtain r w1 where loop: "for_each ?f rels w = (r, w1)"
        by (cases "for_each ?f rels w")
      have grow1: "map_of (files w1) p = Some n" if "map_of (files w) p = Some n" for p n
        using loop that by (rule for_each_generate_grows)
      from generate_after_loop[OF run hook lines data tf rels loop]
      have after: "\<forall>p n. map_of (files w1) p = Some n \<longrightarrow> map_of (files w') p = Some n"
        and after_ui: "set (ui w1) \<subseteq> set (ui w')"
        by blast+
      have part1: "\<forall>p n. map_of (files w) p = Some n \<longrightarrow> map_of (files w') p = Some n"
        using grow1 after by blast
      have part2: "UiInfo (''already exists '' @ destRel) \<in> set (ui w')"
        if split: "rels = pre @ rel # post"
          and reached: "fst (for_each ?f pre w) = None"
          and src: "readFileSync (files w) (path_resolve (path_join tf rel)) = Inr src"
          and name: "apply_template eng (Some DunderRegExp) rel data = Inr destRel"
          and there: "existsSync (files w) (path_join (cwd w) destRel)"
        for pre rel post src destRel
      proof -
        obtain w0 where pre: "for_each ?f pre w = (None, w0)"
          using reached by (cases "for_each ?f pre w") auto
        have grow0: "\<forall>q n. map_of (files w) q = Some n \<longrightarrow> map_of (files w0) q = Some n"
          using for_each_generate_grows[OF pre] by blast
        from grow0 src have src0: "readFileSync (files w0) (path_resolve (path_join tf rel)) = Inr src"
          by (rule readFileSync_grows)
        from grow0 there have there0: "existsSync (files w0) (path_join (cwd w) destRel)"
          by (rule existsSync_grows)
        from src0 name there0
        have step: "?f rel w0 = (None, ui_info (''already exists '' @ destRel) w0)"
          by (rule generate_entry_reports)
        from loop split pre step
        have rest: "for_each ?f post (ui_info (''already exists '' @ destRel) w0) = (r, w1)"
          by (simp add: for_each_append)
        have "UiInfo (''already exists '' @ destRel)
                \<in> set (ui (ui_info (''already exists '' @ destRel) w0))"
          by (simp add: ui_info_def)
        with for_each_generate_ui[OF rest] after_ui show ?thesis by blast
      qed
      have part3: "UiInfo (''already exists '' @ destRel) \<in> set (ui w')"
        if res: "c = Resolved" and rel: "rel \<in> set rels"
          and src: "readFileSync (files w) (path_resolve (path_join tf rel)) = Inr src"
          and name: "apply_template eng (Some DunderRegExp) rel data = Inr destRel"
          and there: "existsSync (files w) (path_join (cwd w) destRel)"
        for rel src destRel
      proof -
        have r: "r = None"
        proof (cases r)
          case (Some e)
          with run data tf rels loop res show ?thesis by (simp add: generate_def)
        qed simp
        from rel obtain pre post where split: "rels = pre @ rel # post"
          by (auto simp: in_set_conv_decomp)
        obtain r0 w0 where pre: "for_each ?f pre w = (r0, w0)"
          by (cases "for_each ?f pre w")
        from loop split pre r have "r0 = None"
          by (cases r0) (simp_all add: for_each_append)
        with pre have "fst (for_each ?f pre w) = None" by simp
        with split show ?thesis using src name there by (rule part2)
      qed
      from part1 part2 part3 data tf rels show ?thesis by auto
    qed
  qed
qed

text \<open>Claim C8, amended, at concrete inputs: the project has \<^verbatim>\<open>bob.js\<close>, and the template
  \<^verbatim>\<open>__n__.js\<close> with \<^verbatim>\<open>n = bob\<close> has this destination. In \<open>late_throw_world\<close> it is walked
  first and the template \<^verbatim>\<open>z.js\<close> walked after it throws: \<^verbatim>\<open>generate\<close> rejects, the file
  holds what it held and the console has the line. In \<open>demo_world\<close> it is the only template
  and \<^verbatim>\<open>generate\<close> resolves, with the line on the console.\<close>

theorem generate_never_overwrites_witness:
  "fst (generate lookup_engine demo_blueprint () late_throw_world)
     = Rejected (JError ''ReferenceError'' ''zz is not defined'' [])
   \<and> map_of (files (snd (generate lookup_engine demo_blueprint () late_throw_world)))
       [''proj'', ''bob.js''] = Some (File ''mine'')
   \<and> UiInfo ''already exists bob.js''
       \<in> set (ui (snd (generate lookup_engine demo_blueprint () late_throw_world)))
   \<and> fst (generate lookup_engine demo_blueprint () demo_world) = Resolved
   \<and> map_of (files (snd (generate lookup_engine demo_blueprint () demo_world)))
       [''proj'', ''bob.js''] = Some (File ''mine'')
   \<and> UiInfo ''already exists bob.js''
       \<in> set (ui (snd (generate lookup_engine demo_blueprint () demo_world)))"
proof -
  let ?data = "[(''n'', JStr ''bob'')]"
  have hook: "\<forall>v p n. map_of (files v) p = Some n \<longrightarrow>
                 map_of (files (snd (postInstall demo_blueprint () v))) p = Some n"
    by (simp add: demo_blueprint_def noop_hook_def)
  have lines: "\<forall>v. set (ui v) \<subseteq> set (ui (snd (postInstall demo_blueprint () v)))"
    by (simp add: demo_blueprint_def noop_hook_def)
  have l: "locals demo_blueprint () = Inr ?data"
    by (simp add: demo_blueprint_def)
  have b: "apply_template lookup_engine (Some DunderRegExp) ''__n__.js'' ?data = Inr ''bob.js''"
    by code_simp
  have late: "fst (generate lookup_engine demo_blueprint () late_throw_world)
                = Rejected (JError ''ReferenceError'' ''zz is not defined'' [])
     \<and> map_of (files (snd (generate lookup_engine demo_blueprint () late_throw_world)))
         [''proj'', ''bob.js''] = Some (File ''mine'')
     \<and> UiInfo ''already exists bob.js''
         \<in> set (ui (snd (generate lookup_engine demo_blueprint () late_throw_world)))"
  proof -
    obtain c w' where run: "generate lookup_engine demo_blueprint () late_throw_world = (c, w')"
      by (cases "generate lookup_engine demo_blueprint () late_throw_world")
    have c: "fst (generate lookup_engine demo_blueprint () late_throw_world)
               = Rejected (JError ''ReferenceError'' ''zz is not defined'' [])"
      by code_simp
    have t: "templateFiles demo_blueprint late_throw_world = Inr [''bp'', ''files'']"
      by code_simp
    have wk: "walk (files late_throw_world) [''bp'', ''files'']
                = Inr ([] @ ''__n__.js'' # [''z.js''])"
      by code_simp
    have pre: "fst (for_each (generate_entry lookup_engine ?data [''bp'', ''files'']
                        (cwd late_throw_world)) [] late_throw_world) = None"
      by simp
    have a: "readFileSync (files late_throw_world)
               (path_resolve (path_join [''bp'', ''files''] ''__n__.js'')) = Inr ''hi <%= n %>''"
      by code_simp
    have d: "existsSync (files late_throw_world) (path_join (cwd late_throw_world) ''bob.js'')"
      by code_simp
    have d': "map_of (files late_throw_world) [''proj'', ''bob.js''] = Some (File ''mine'')"
      by code_simp
    from generate_never_overwrites[OF run hook lines]
    have keep: "\<forall>p n. map_of (files late_throw_world) p = Some n \<longrightarrow> map_of (files w') p = Some n"
      and report: "\<forall>data tf pre rel post src destRel.
              locals demo_blueprint () = Inr data \<longrightarrow>
              templateFiles demo_blueprint late_throw_world = Inr tf \<longrightarrow>
              walk (files late_throw_world) tf = Inr (pre @ rel # post) \<longrightarrow>
              fst (for_each (generate_entry lookup_engine data tf (cwd late_throw_world)) pre
                     late_throw_world) = None \<longrightarrow>
              readFileSync (files late_throw_world) (path_resolve (path_join tf rel)) = Inr src \<longrightarrow>
              apply_template lookup_engine (Some DunderRegExp) rel data = Inr destRel \<longrightarrow>
              existsSync (files late_throw_world) (path_join (cwd late_throw_world) destRel) \<longrightarrow>
              UiInfo (''already exists '' @ destRel) \<in> set (ui w')"
      by blast+
    from keep d' have k: "map_of (files w') [''proj'', ''bob.js''] = Some (File ''mine'')"
      by blast
    from report l t wk pre a b d
    have "UiInfo (''already exists '' @ ''bob.js'') \<in> set (ui w')"
      by blast
    then have "UiInfo ''already exists bob.js'' \<in> set (ui w')" by simp
    with c k run show ?thesis by simp
  qed
  have resolved: "fst (generate lookup_engine demo_blueprint () demo_world) = Resolved
     \<and> map_of (files (snd (generate lookup_engine demo_blueprint () demo_world)))
         [''proj'', ''bob.js''] = Some (File ''mine'')
     \<and> UiInfo ''already exists bob.js''
         \<in> set (ui (snd (generate lookup_engine demo_blueprint () demo_world)))"
  proof -
    obtain c w' where run: "generate lookup_engine demo_blueprint () demo_world = (c, w')"
      by (cases "generate lookup_engine demo_blueprint () demo_world")
    have "fst (generate lookup_engine demo_blueprint () demo_world) = Resolved"
      by code_simp
    with run have c: "c = Resolved" by simp
    have t: "templateFiles demo_blueprint demo_world = Inr [''bp'', ''files'']"
      by code_simp
    have wk: "walk (files demo_world) [''bp'', ''files''] = Inr [''__n__.js'']"
      by code_simp
    have a: "readFileSync (files demo_world)
               (path_resolve (path_join [''bp'', ''files''] ''__n__.js'')) = Inr ''hi <%= n %>''"
      by code_simp
    have d: "existsSync (files demo_world) (path_join (cwd demo_world) ''bob.js'')"
      by code_simp
    have d': "map_of (files demo_world) [''proj'', ''bob.js''] = Some (File ''mine'')"
      by code_simp
    from generate_never_overwrites[OF run hook lines]
    have keep: "\<forall>p n. map_of (files demo_world) p = Some n \<longrightarrow> map_of (files w') p = Some n"
      and report: "\<forall>data tf rels src destRel.
              locals demo_blueprint () = Inr data \<longrightarrow>
              templateFiles demo_blueprint demo_world = Inr tf \<longrightarrow>
              walk (files demo_world) tf = Inr rels \<longrightarrow> c = Resolved \<longrightarrow>
              (\<forall>rel \<in> set rels.
                 readFileSync (files demo_world) (path_resolve (path_join tf rel)) = Inr src \<longrightarrow>
                 apply_template lookup_engine (Some DunderRegExp) rel data = Inr destRel \<longrightarrow>
                 existsSync (files demo_world) (path_join (cwd demo_world) destRel) \<longrightarrow>
                 UiInfo (''already exists '' @ destRel) \<in> set (ui w'))"
      by blast+
    from keep d' have k: "map_of (files w') [''proj'', ''bob.js''] = Some (File ''mine'')"
      by blast
    from report l t wk c
    have "\<forall>rel \<in> set [''__n__.js''].
             readFileSync (files demo_world) (path_resolve (path_join [''bp'', ''files''] rel))
               = Inr ''hi <%= n %>'' \<longrightarrow>
             apply_template lookup_engine (Some DunderRegExp) rel ?data = Inr ''bob.js'' \<longrightarrow>
             existsSync (files demo_world) (path_join (cwd demo_world) ''bob.js'') \<longrightarrow>
             UiInfo (''already exists '' @ ''bob.js'') \<in> set (ui w')"
      by blast
    with a b d have "UiInfo (''already exists '' @ ''bob.js'') \<in> set (ui w')"
      by simp
    then have "UiInfo ''already exists bob.js'' \<in> set (ui w')" by simp
    with c k run show ?thesis by simp
  qed
  from late resolved show ?thesis by simp
qed


subsection \<open>destroy removes the unmodified files and nothing else\<close>

lemma files_ui_info [simp]: "files (ui_info m w) = files w"
  by (simp add: ui_info_def)

lemma cwd_ui_info [simp]: "cwd (ui_info m w) = cwd w"
  by (simp add: ui_info_def)

lemma statics_ui_info [simp]: "statics (ui_info m w) = statics w"
  by (simp add: ui_info_def)














text \<open>Before the filters, \<^verbatim>\<open>destroy\<close> rejects when the locals, the template directory or its
  walk throw, and changes nothing.\<close>

lemma destroy_rejects_early:
  "locals bp argv = Inl e \<Longrightarrow> destroy eng bp argv w = (Rejected e, w)"
  "locals bp argv = Inr data \<Longrightarrow> templateFiles bp w = Inl e \<Longrightarrow>
     destroy eng bp argv w = (Rejected e, w)"
  "locals bp argv = Inr data \<Longrightarrow> templateFiles bp w = Inr tf \<Longrightarrow>
     walk (files w) tf = Inl e \<Longrightarrow> destroy eng bp argv w = (Rejected e, w)"
  by (simp_all add: destroy_def)





subsection \<open>generate and destroy render a template differently\<close>

text \<open>
  Claim C1 says that \<^verbatim>\<open>destroy\<close> after \<^verbatim>\<open>generate\<close>, with the same locals and no change to
  the generated files, deletes every file that \<^verbatim>\<open>generate\<close> created. \<^verbatim>\<open>generate\<close> passes its
  own \<^verbatim>\<open>interpolate\<close> expression (line 190), which switches the ES delimiter \<^verbatim>\<open>${...}\<close> off;
  \<^verbatim>\<open>destroy\<close> passes no options (line 242), so the delimiter is on. For the template
  \<^verbatim>\<open>x ${n} y\<close> and \<^verbatim>\<open>n = bob\<close>, \<^verbatim>\<open>generate\<close> writes \<^verbatim>\<open>x ${n} y\<close> into a project that had no such
  file, \<^verbatim>\<open>destroy\<close> compares the file with \<^verbatim>\<open>x bob y\<close>, and the file stays.
\<close>

theorem destroy_keeps_file_with_es_delimiter:
  "map_of (files literal_world) [''proj'', ''a.js''] = None
   \<and> fst (generate lookup_engine demo_blueprint () literal_world) = Resolved
   \<and> map_of (files (snd (generate lookup_engine demo_blueprint () literal_world))) [''proj'', ''a.js'']
       = Some (File ''x ${n} y'')
   \<and> fst (destroy lookup_engine demo_blueprint ()
             (snd (generate lookup_engine demo_blueprint () literal_world))) = Resolved
   \<and> map_of (files (snd (destroy lookup_engine demo_blueprint ()
             (snd (generate lookup_engine demo_blueprint () literal_world))))) [''proj'', ''a.js'']
       = Some (File ''x ${n} y'')
   \<and> apply_template lookup_engine (Some ErbRegExp) ''x ${n} y'' [(''n'', JStr ''bob'')]
       = Inr ''x ${n} y''
   \<and> apply_template lookup_engine None ''x ${n} y'' [(''n'', JStr ''bob'')] = Inr ''x bob y''"
  by code_simp

subsection \<open>File names with two markers\<close>

text \<open>
  Claim C3 says that every marker \<^verbatim>\<open>__name__\<close> of a template's relative path is replaced by
  the value of \<^verbatim>\<open>name\<close>. The group of \<^verbatim>\<open>/__([\S]+)__/g\<close> is greedy: in a path with two
  markers it runs from the first marker to the last, and the text between is handed to
  the engine as one expression. For \<^verbatim>\<open>__a__/__b__.js\<close> the destination is whatever the
  expression \<^verbatim>\<open>a__/__b\<close> gives, under every engine and all locals, or the error of the
  engine when it does not parse; \<^verbatim>\<open>a\<close> and \<^verbatim>\<open>b\<close> are never looked up.
\<close>

theorem two_markers_are_one_expression:
  "apply_template eng (Some DunderRegExp) ''__a__/__b__.js'' data =
     (case syntax_error eng ''a__/__b'' of
        Some x \<Rightarrow> Inl x
      | None \<Rightarrow>
          (case eval_expr eng ''a__/__b'' data of
             Inl x \<Rightarrow> Inl x
           | Inr v \<Rightarrow> Inr (interpolated v @ ''.js'')))"
  by (simp add: apply_template_def template_def match_delimiter_def match_erb_def
      match_dunder_def is_space_def split: sum.splits option.splits)

subsection \<open>A hook that throws \<^verbatim>\<open>undefined\<close>\<close>

text \<open>
  Claim C6 says that a failure of \<^verbatim>\<open>postInstall\<close> or of a blueprint's \<^verbatim>\<open>configure\<close> is caught
  and logged. Both handlers read \<^verbatim>\<open>stack\<close> from what was thrown (lines 86 and 202); when
  that is \<^verbatim>\<open>undefined\<close> or \<^verbatim>\<open>null\<close> the read throws inside the handler. \<^verbatim>\<open>generate\<close> then
  rejects, and \<^verbatim>\<open>configureBlueprints\<close> throws before it reaches the next blueprint.
\<close>

theorem hook_rejecting_with_undefined_propagates:
  "fst (generate lookup_engine rejecting_blueprint () demo_world)
     = Rejected (type_error ''Cannot read property 'stack' of undefined'')
   \<and> fst (configureBlueprints demo_configure [(''a'', 1), (''b'', 2)] []
            \<lparr>isLocal = True, invoked_as = ''generate''\<rparr> demo_world)
     = Inl (type_error ''Cannot read property 'stack' of undefined'')"
  by code_simp


subsection \<open>Blueprint discovery\<close>

lemma statics_set_addon:
  "blueprintName (statics (set_addon r a w) x) = blueprintName (statics w x)"
  "dir (statics (set_addon r a w) x) = dir (statics w x)"
  "addon (statics (set_addon r a w) x) = (if x = r then Some a else addon (statics w x))"
  "superclasses (statics (set_addon r a w) x) = superclasses (statics w x)"
  "files (set_addon r a w) = files w"
  by (simp_all add: set_addon_def)

lemma statics_set_dir:
  "blueprintName (statics (set_dir r p w) x) = blueprintName (statics w x)"
  "addon (statics (set_dir r p w) x) = addon (statics w x)"
  "dir (statics (set_dir r p w) x) = (if x = r then Some p else dir (statics w x))"
  "superclasses (statics (set_dir r p w) x) = superclasses (statics w x)"
  "files (set_dir r p w) = files w"
  by (simp_all add: set_dir_def)

lemma load_blueprints_map:
  "load_blueprints ld a d names acc w = (Inr loaded, w1) \<Longrightarrow>
   map_of loaded n = (if n \<in> set names then map_option exported (ld (path_join d n)) else map_of acc n)
   \<and> (n \<in> set names \<longrightarrow> ld (path_join d n) \<noteq> None)"
proof (induction names arbitrary: acc w)
  case Nil
  then show ?case by simp
next
  case (Cons x xs)
  from Cons.prems obtain m where m: "ld (path_join d x) = Some m"
    by (auto split: option.splits)
  from Cons.prems m obtain w0 where
    rest: "load_blueprints ld a d xs (AList.update x (exported m) acc) w0 = (Inr loaded, w1)"
    by (cases m) auto
  from Cons.IH[OF rest] m show ?case
    by (auto simp: AList.update_conv')
qed

lemma load_blueprints_distinct:
  "load_blueprints ld a d names acc w = (Inr loaded, w1) \<Longrightarrow> distinct (map fst acc) \<Longrightarrow>
   distinct (map fst loaded)"
proof (induction names arbitrary: acc w)
  case Nil
  then show ?case by simp
next
  case (Cons x xs)
  from Cons.prems obtain m where m: "ld (path_join d x) = Some m"
    by (auto split: option.splits)
  from Cons.prems m obtain w0 where
    rest: "load_blueprints ld a d xs (AList.update x (exported m) acc) w0 = (Inr loaded, w1)"
    by (cases m) auto
  from Cons.prems(2) have "distinct (map fst (AList.update x (exported m) acc))"
    by (rule AList.distinct_update)
  with rest show ?case by (rule Cons.IH)
qed

lemma load_blueprints_statics:
  "load_blueprints ld a d names acc w = (r, w1) \<Longrightarrow>
   blueprintName (statics w1 x) = blueprintName (statics w x)
   \<and> superclasses (statics w1 x) = superclasses (statics w x)
   \<and> dir (statics w1 x) = dir (statics w x)
   \<and> files w1 = files w
   \<and> (addon (statics w1 x) = addon (statics w x) \<or> addon (statics w1 x) = Some a)"
proof (induction names arbitrary: acc w)
  case Nil
  then show ?case by simp
next
  case (Cons n ns)
  show ?case
  proof (cases "ld (path_join d n)")
    case None
    with Cons.prems show ?thesis by simp
  next
    case (Some m)
    show ?thesis
    proof (cases m)
      case (ExportsClass c)
      with Some Cons.prems have
        "load_blueprints ld a d ns (AList.update n c acc) (set_addon c a w) = (r, w1)"
        by simp
      from Cons.IH[OF this] show ?thesis by (auto simp: statics_set_addon)
    next
      case (ExportsDefault c)
      with Some Cons.prems have "load_blueprints ld a d ns (AList.update n c acc) w = (r, w1)"
        by simp
      from Cons.IH[OF this] show ?thesis .
    qed
  qed
qed

lemma load_blueprints_addon:
  "load_blueprints ld a d names acc w = (Inr loaded, w1) \<Longrightarrow>
   n \<in> set names \<Longrightarrow> ld (path_join d n) = Some (ExportsClass c) \<Longrightarrow>
   addon (statics w1 c) = Some a"
proof (induction names arbitrary: acc w)
  case Nil
  then show ?case by simp
next
  case (Cons x xs)
  from Cons.prems obtain m where m: "ld (path_join d x) = Some m"
    by (auto split: option.splits)
  from Cons.prems m obtain w0 where
    rest: "load_blueprints ld a d xs (AList.update x (exported m) acc) w0 = (Inr loaded, w1)"
    and w0: "w0 = (case m of ExportsClass c' \<Rightarrow> set_addon c' a w | ExportsDefault c' \<Rightarrow> w)"
    by (cases m) auto
  show ?case
  proof (cases "n \<in> set xs")
    case True
    from Cons.IH[OF rest True Cons.prems(3)] show ?thesis .
  next
    case False
    with Cons.prems(2) have "n = x" by simp
    with m Cons.prems(3) w0 have "w0 = set_addon c a w" by simp
    then have "addon (statics w0 c) = Some a" by (simp add: statics_set_addon)
    with load_blueprints_statics[OF rest, of c] show ?thesis by auto
  qed
qed

lemma capture_dirs_statics:
  "blueprintName (statics (capture_dirs d bps w) x) = blueprintName (statics w x)
   \<and> superclasses (statics (capture_dirs d bps w) x) = superclasses (statics w x)
   \<and> addon (statics (capture_dirs d bps w) x) = addon (statics w x)
   \<and> files (capture_dirs d bps w) = files w"
proof (induction bps arbitrary: w)
  case Nil
  then show ?case by simp
next
  case (Cons b bps)
  obtain n r where b: "b = (n, r)" by (cases b)
  from Cons.IH[of "set_dir r (path_join d n) w"] b show ?case
    by (simp add: statics_set_dir)
qed

lemma capture_dirs_dir:
  "dir (statics (capture_dirs d bps w) x) =
     (if x \<in> snd ` set bps then dir (statics (capture_dirs d bps w) x) else dir (statics w x))
   \<and> (x \<in> snd ` set bps \<longrightarrow>
        (\<exists>n. (n, x) \<in> set bps \<and> dir (statics (capture_dirs d bps w) x) = Some (path_join d n)))"
proof (induction bps arbitrary: w)
  case Nil
  then show ?case by simp
next
  case (Cons b bps)
  obtain n r where b: "b = (n, r)" by (cases b)
  let ?w = "set_dir r (path_join d n) w"
  note ih = Cons.IH[of ?w]
  show ?case
  proof (cases "x \<in> snd ` set bps")
    case True
    with ih b show ?thesis by auto
  next
    case False
    with ih have "dir (statics (capture_dirs d bps ?w) x) = dir (statics ?w x)" by simp
    with b False show ?thesis by (auto simp: statics_set_dir)
  qed
qed

lemma mapKeys_distinct:
  "distinct (map fst acc) \<Longrightarrow> distinct (map fst (mapKeys f bps acc))"
proof (induction bps arbitrary: acc)
  case Nil
  then show ?case by simp
next
  case (Cons b bps)
  obtain n r where b: "b = (n, r)" by (cases b)
  from Cons.prems have "distinct (map fst (AList.update (f r n) r acc))"
    by (rule AList.distinct_update)
  from Cons.IH[OF this] b show ?case by simp
qed


lemma mapKeys_keeps_key:
  "map_of acc k \<noteq> None \<Longrightarrow> map_of (mapKeys f bps acc) k \<noteq> None"
proof (induction bps arbitrary: acc)
  case Nil
  then show ?case by simp
next
  case (Cons b bps)
  obtain n v where b: "b = (n, v)" by (cases b)
  from Cons.prems have "map_of (AList.update (f v n) v acc) k \<noteq> None"
    by (simp add: AList.update_conv')
  from Cons.IH[OF this] b show ?case by simp
qed

lemma mapKeys_registers:
  "(n, v) \<in> set bps \<Longrightarrow> map_of (mapKeys f bps acc) (f v n) \<noteq> None"
proof (induction bps arbitrary: acc)
  case Nil
  then show ?case by simp
next
  case (Cons b bps)
  obtain n' v' where b: "b = (n', v')" by (cases b)
  show ?case
  proof (cases "(n, v) \<in> set bps")
    case True
    from Cons.IH[OF this] b show ?thesis by simp
  next
    case False
    with Cons.prems b have "n' = n" "v' = v" by auto
    moreover have "map_of (AList.update (f v n) v acc) (f v n) \<noteq> None"
      by (simp add: AList.update_conv')
    ultimately show ?thesis using b mapKeys_keeps_key by simp
  qed
qed

lemma assign_conv:
  "distinct (map fst bps) \<Longrightarrow>
   map_of (assign soFar bps) k = (case map_of bps k of Some r \<Rightarrow> Some r | None \<Rightarrow> map_of soFar k)"
proof (induction bps arbitrary: soFar)
  case Nil
  then show ?case by simp
next
  case (Cons b bps)
  obtain n v where b: "b = (n, v)" by (cases b)
  from Cons.prems b have d: "distinct (map fst bps)" and notin: "n \<notin> fst ` set bps" by auto
  from notin have none: "map_of bps n = None" by (simp add: map_of_eq_None_iff)
  from Cons.IH[OF d, of "AList.update n v soFar"] b none show ?case
    by (auto simp: AList.update_conv' split: option.splits)
qed



lemma discover_unfold:
  assumes run: "discoverBlueprintsForAddon ld soFar addonName d w = (Inr (returned, soFar'), w')"
    and there: "existsSync (files w) d"
    and dirs: "blueprint_dirnames (files w) d = Inr dirnames"
  obtains loaded w1 where
    "load_blueprints ld addonName d dirnames [] w = (Inr loaded, w1)"
    "w' = capture_dirs d loaded w1"
    "returned = soFar'"
    "soFar' = assign (scope_clobbered w'
                 (filter (\<lambda>k. k \<in> set (map fst soFar))
                    (map fst (mapKeys (invocation_name w') loaded []))) soFar)
               (mapKeys (invocation_name w') loaded [])"
proof -
  obtain res w1 where l: "load_blueprints ld addonName d dirnames [] w = (res, w1)"
    by (cases "load_blueprints ld addonName d dirnames [] w")
  show ?thesis
  proof (cases res)
    case (Inl e)
    with run there dirs l show ?thesis by (simp add: discoverBlueprintsForAddon_def)
  next
    case (Inr loaded)
    with run there dirs l show ?thesis
      by (intro that[of loaded w1]) (auto simp: discoverBlueprintsForAddon_def Let_def)
  qed
qed




text \<open>
  Claim C10 says that a blueprint whose name is taken by a later addon is registered again
  under \<^verbatim>\<open><its addon>:<name>\<close>, so that no blueprint is lost. Line 104 assigns \<^verbatim>\<open>addon\<close> to
  the exports of the module, line 105 registers the \<^verbatim>\<open>default\<close> export when there is one:
  the class registered for a module with a default export never gets its \<^verbatim>\<open>addon\<close>, and
  line 120 builds the key \<^verbatim>\<open>undefined:<name>\<close>. After addons A and B the blueprint of A is
  under \<^verbatim>\<open>undefined:x\<close>, not under \<^verbatim>\<open>A:x\<close>; after a third addon C the blueprint of B has
  taken that key and the blueprint of A (class 1) is in the map no more.
\<close>

theorem third_addon_drops_first_blueprint:
  "fst (findBlueprints default_loader [(''A'', [''a'']), (''B'', [''b''])] addons_world)
     = Inr [(''x'', 2), (''route'', 4), (''undefined:x'', 1)]
   \<and> fst (findBlueprints default_loader [(''A'', [''a'']), (''B'', [''b'']), (''C'', [''c''])]
            addons_world)
     = Inr [(''x'', 3), (''route'', 4), (''undefined:x'', 2)]"
  by code_simp


subsection \<open>The statics of a class after discovery\<close>

text \<open>
  Claim C7 says that the registered name, the \<^verbatim>\<open>addon\<close> and the \<^verbatim>\<open>dir\<close> of a blueprint are
  assigned during discovery and changed by no later operation. For a module with a
  default export the assignment of line 104 goes to the exports object, not to the class
  that line 105 registers: after the discovery of addon \<^verbatim>\<open>A\<close> the class of directory \<^verbatim>\<open>x\<close>
  (class 1) is registered, neither it nor a class above it has an \<^verbatim>\<open>addon\<close>, and the read
  of line 120 gives \<^verbatim>\<open>undefined\<close>. The class of directory \<^verbatim>\<open>y\<close> (class 4), which its module
  exports itself, has the addon \<^verbatim>\<open>A\<close>.
\<close>

theorem addon_not_assigned_to_default_export:
  "fst (discoverBlueprintsForAddon default_loader [] ''A'' [''a'', ''blueprints''] addons_world)
     = Inr ([(''x'', 1), (''route'', 4)], [(''x'', 1), (''route'', 4)])
   \<and> addon (statics (snd (discoverBlueprintsForAddon default_loader [] ''A''
                             [''a'', ''blueprints''] addons_world)) 1) = None
   \<and> static_read addon (snd (discoverBlueprintsForAddon default_loader [] ''A''
                             [''a'', ''blueprints''] addons_world)) 1 = None
   \<and> static_read addon (snd (discoverBlueprintsForAddon default_loader [] ''A''
                             [''a'', ''blueprints''] addons_world)) 4 = Some ''A''"
  by code_simp

text \<open>What discovery does assign: the class of every blueprint directory gets as \<^verbatim>\<open>dir\<close> the
  path of a directory it was loaded from, its invocation name is a key of the map, and
  it gets the addon's name as \<^verbatim>\<open>addon\<close> when the module exports the class itself.\<close>

lemma loaded_iff:
  assumes load: "load_blueprints ld a d names [] w = (Inr loaded, w1)"
  shows "(n, r) \<in> set loaded \<longleftrightarrow>
      n \<in> set names \<and> (\<exists>m. ld (path_join d n) = Some m \<and> exported m = r)"
proof -
  have dl: "distinct (map fst loaded)"
    using load by (rule load_blueprints_distinct) simp
  have "(n, r) \<in> set loaded \<longleftrightarrow> map_of loaded n = Some r"
    using dl by (auto intro: map_of_is_SomeI dest: map_of_SomeD)
  also have "\<dots> \<longleftrightarrow> n \<in> set names \<and> (\<exists>m. ld (path_join d n) = Some m \<and> exported m = r)"
    using load_blueprints_map[OF load, of n] by auto
  finally show ?thesis .
qed

lemma discovery_assigns_statics:
  assumes run: "discoverBlueprintsForAddon ld soFar addonName d w = (Inr (returned, soFar'), w')"
    and there: "existsSync (files w) d"
    and dirs: "blueprint_dirnames (files w) d = Inr dirnames"
    and dn: "dirname \<in> set dirnames"
  shows "\<exists>m. ld (path_join d dirname) = Some m \<and>
            (\<exists>dirname' \<in> set dirnames. \<exists>m'. ld (path_join d dirname') = Some m' \<and>
               exported m' = exported m \<and>
               dir (statics w' (exported m)) = Some (path_join d dirname')) \<and>
            (\<forall>c. m = ExportsClass c \<longrightarrow> addon (statics w' c) = Some addonName) \<and>
            map_of soFar' (invocation_name w' (exported m) dirname) \<noteq> None"
proof -
  from run there dirs obtain loaded w1 where
    load: "load_blueprints ld addonName d dirnames [] w = (Inr loaded, w1)" and
    w': "w' = capture_dirs d loaded w1" and
    soFar': "soFar' = assign (scope_clobbered w'
                 (filter (\<lambda>k. k \<in> set (map fst soFar))
                    (map fst (mapKeys (invocation_name w') loaded []))) soFar)
               (mapKeys (invocation_name w') loaded [])"
    by (rule discover_unfold)
  from dn load_blueprints_map[OF load, of dirname] obtain m where
    m: "ld (path_join d dirname) = Some m" by auto
  with dn have mem: "(dirname, exported m) \<in> set loaded"
    by (auto simp: loaded_iff[OF load])
  then have "exported m \<in> snd ` set loaded" by force
  with capture_dirs_dir[of d loaded w1 "exported m"] obtain n where
    n: "(n, exported m) \<in> set loaded" and
    dr: "dir (statics w' (exported m)) = Some (path_join d n)"
    by (auto simp: w')
  from n obtain m' where m': "n \<in> set dirnames" "ld (path_join d n) = Some m'"
    "exported m' = exported m"
    by (auto simp: loaded_iff[OF load])
  have ad: "addon (statics w' c) = Some addonName" if "m = ExportsClass c" for c
  proof -
    from that m have "ld (path_join d dirname) = Some (ExportsClass c)" by simp
    with load dn have "addon (statics w1 c) = Some addonName"
      by (rule load_blueprints_addon)
    with capture_dirs_statics[of d loaded w1 c] show ?thesis by (simp add: w')
  qed
  have "distinct (map fst (mapKeys (invocation_name w') loaded []))"
    by (rule mapKeys_distinct) simp
  then have "map_of soFar' k =
      (case map_of (mapKeys (invocation_name w') loaded []) k of
         Some r \<Rightarrow> Some r
       | None \<Rightarrow> map_of (scope_clobbered w'
               (filter (\<lambda>k. k \<in> set (map fst soFar))
                  (map fst (mapKeys (invocation_name w') loaded []))) soFar) k)" for k
    unfolding soFar' by (rule assign_conv)
  moreover from mem have
    "map_of (mapKeys (invocation_name w') loaded []) (invocation_name w' (exported m) dirname)
       \<noteq> None"
    by (rule mapKeys_registers)
  ultimately have reg: "map_of soFar' (invocation_name w' (exported m) dirname) \<noteq> None"
    by (auto split: option.splits)
  from m m' dr ad reg show ?thesis by blast
qed

text \<open>The later operations assign no static: \<^verbatim>\<open>generate\<close>, \<^verbatim>\<open>destroy\<close>, \<^verbatim>\<open>configure\<close>,
  \<^verbatim>\<open>configureBlueprints\<close>, \<^verbatim>\<open>addRoute\<close> and \<^verbatim>\<open>removeRoute\<close> leave the statics of every class as
  they are, as long as the methods that a blueprint or a library supplies do.\<close>

lemma statics_ui [simp]:
  "statics (ui_warn v w) = statics w"
  "statics (ui_error v w) = statics w"
  by (simp_all add: ui_warn_def ui_error_def)

lemma generate_entry_statics:
  "generate_entry eng data tf dest rel w = (r, w') \<Longrightarrow> statics w' = statics w"
  by (auto simp: generate_entry_def Let_def split: if_splits sum.splits)

lemma for_each_generate_statics:
  "for_each (generate_entry eng data tf dest) rels w = (r, w') \<Longrightarrow> statics w' = statics w"
proof (induction rels arbitrary: w)
  case Nil
  then show ?case by simp
next
  case (Cons x xs)
  obtain r1 w1 where step: "generate_entry eng data tf dest x w = (r1, w1)"
    by (cases "generate_entry eng data tf dest x w")
  then have s1: "statics w1 = statics w" by (rule generate_entry_statics)
  show ?case
  proof (cases r1)
    case None
    with step Cons.prems have "for_each (generate_entry eng data tf dest) xs w1 = (r, w')"
      by simp
    then have "statics w' = statics w1" by (rule Cons.IH)
    with s1 show ?thesis by simp
  next
    case (Some e)
    with step Cons.prems have "w' = w1" by simp
    with s1 show ?thesis by simp
  qed
qed

lemma postInstall_failed_statics:
  "statics (snd (postInstall_failed e v)) = statics v"
  by (auto simp: postInstall_failed_def Let_def split: sum.splits)

lemma generate_statics:
  assumes hook: "\<forall>u. statics (snd (postInstall bp argv u)) = statics u"
  shows "statics (snd (generate eng bp argv w)) = statics w"
proof (cases "locals bp argv")
  case (Inl e)
  then show ?thesis by (simp add: generate_def)
next
  case data: (Inr data)
  show ?thesis
  proof (cases "templateFiles bp w")
    case (Inl e)
    with data show ?thesis by (simp add: generate_def)
  next
    case tf: (Inr tf)
    show ?thesis
    proof (cases "walk (files w) tf")
      case (Inl e)
      with data tf show ?thesis by (simp add: generate_def)
    next
      case rels: (Inr rels)
      obtain r w1 where loop: "for_each (generate_entry eng data tf (cwd w)) rels w = (r, w1)"
        by (cases "for_each (generate_entry eng data tf (cwd w)) rels w")
      then have s1: "statics w1 = statics w" by (rule for_each_generate_statics)
      show ?thesis
      proof (cases r)
        case (Some e)
        with data tf rels loop s1 show ?thesis by (simp add: generate_def)
      next
        case None
        obtain c2 w2 where h: "postInstall bp argv w1 = (c2, w2)"
          by (cases "postInstall bp argv w1")
        from hook have "statics (snd (postInstall bp argv w1)) = statics w1" by (rule spec)
        with h s1 have s2: "statics w2 = statics w" by simp
        show ?thesis
        proof (cases c2)
          case Resolved
          with data tf rels loop None h s2 show ?thesis by (simp add: generate_def)
        next
          case (Rejected e)
          with data tf rels loop None h have
            "generate eng bp argv w = postInstall_failed e w2"
            by (simp add: generate_def)
          with s2 show ?thesis by (simp add: postInstall_failed_statics)
        qed
      qed
    qed
  qed
qed

lemma existing_files_statics:
  "statics (snd (existing_files cs w)) = statics w"
proof (induction cs arbitrary: w)
  case Nil
  then show ?case by simp
next
  case (Cons c cs)
  show ?case
    using Cons.IH[of w] Cons.IH[of "ui_info (''missing '' @ destRelativepath c) w"]
    by (auto split: prod.splits)
qed

lemma unmodified_files_statics:
  "statics (snd (unmodified_files eng data cs w)) = statics w"
proof (induction cs arbitrary: w)
  case Nil
  then show ?case by simp
next
  case (Cons c cs)
  show ?case
    using Cons.IH[of "ui_info (''destroy '' @ destRelativepath c) w"]
      Cons.IH[of "ui_info (''skipped '' @ destRelativepath c) w"]
    by (auto split: sum.splits prod.splits)
qed

lemma destroy_statics:
  assumes hook: "\<forall>u. statics (snd (postUninstall bp argv u)) = statics u"
  shows "statics (snd (destroy eng bp argv w)) = statics w"
proof (cases "locals bp argv")
  case (Inl e)
  then show ?thesis by (simp add: destroy_def)
next
  case data: (Inr data)
  show ?thesis
  proof (cases "templateFiles bp w")
    case (Inl e)
    with data show ?thesis by (simp add: destroy_def)
  next
    case tf: (Inr tf)
    show ?thesis
    proof (cases "walk (files w) tf")
      case (Inl e)
      with data tf show ?thesis by (simp add: destroy_def)
    next
      case rels: (Inr rels)
      show ?thesis
      proof (cases "destination_paths eng data tf (cwd w)
                      (map (\<lambda>rel. path_resolve (path_join tf rel)) rels)")
        case (Inl e)
        with data tf rels show ?thesis by (simp add: destroy_def)
      next
        case cands: (Inr cands)
        obtain present w1 where p: "existing_files cands w = (present, w1)"
          by (cases "existing_files cands w")
        with existing_files_statics[of cands w] have s1: "statics w1 = statics w" by simp
        obtain res w2 where u: "unmodified_files eng data present w1 = (res, w2)"
          by (cases "unmodified_files eng data present w1")
        with unmodified_files_statics[of eng data present w1] s1 have s2: "statics w2 = statics w"
          by simp
        show ?thesis
        proof (cases res)
          case (Inl e)
          with data tf rels cands p u s2 show ?thesis by (simp add: destroy_def)
        next
          case (Inr gone)
          obtain thrown fs' where rm: "rimraf_each (map destAbsolutepath gone) (files w2) = (thrown, fs')"
            by (cases "rimraf_each (map destAbsolutepath gone) (files w2)")
          show ?thesis
          proof (cases thrown)
            case (Some e)
            with data tf rels cands p u Inr rm s2 show ?thesis by (simp add: destroy_def)
          next
            case None
            let ?v = "w2\<lparr>files := fs'\<rparr>"
            from hook have "statics (snd (postUninstall bp argv ?v)) = statics ?v" by (rule spec)
            with data tf rels cands p u Inr rm None s2 show ?thesis by (simp add: destroy_def)
          qed
        qed
      qed
    qed
  qed
qed

lemma configure_statics:
  assumes super: "\<forall>y c u. statics (snd (super_configure y c u)) = statics u"
    and update: "\<forall>strings y u. statics (snd (updateStrings strings y u)) = statics u"
  shows "statics (snd (configure super_configure updateStrings yargs ctx w)) = statics w"
proof -
  obtain res w1 where s: "super_configure yargs ctx w = (res, w1)"
    by (cases "super_configure yargs ctx w")
  from super have "statics (snd (super_configure yargs ctx w)) = statics w" by blast
  with s have s1: "statics w1 = statics w" by simp
  show ?thesis
  proof (cases res)
    case (Inl e)
    with s s1 show ?thesis by (simp add: configure_def)
  next
    case (Inr y1)
    from update have "statics (snd (updateStrings [(''Commands:'', ''Available Blueprints:'')] y1 w1))
        = statics w1"
      by blast
    with s s1 Inr show ?thesis by (simp add: configure_def)
  qed
qed

lemma configureBlueprints_statics:
  assumes conf: "\<forall>r y c u. statics (snd (conf r y c u)) = statics u"
  shows "statics (snd (configureBlueprints conf bps yargs ctx w)) = statics w"
proof (induction bps arbitrary: yargs w)
  case Nil
  then show ?case by simp
next
  case (Cons b bps)
  obtain name r where b: "b = (name, r)" by (cases b)
  obtain res w1 where c: "conf r yargs (ctx\<lparr>invoked_as := name\<rparr>) w = (res, w1)"
    by (cases "conf r yargs (ctx\<lparr>invoked_as := name\<rparr>) w")
  from conf have "statics (snd (conf r yargs (ctx\<lparr>invoked_as := name\<rparr>) w)) = statics w"
    by blast
  with c have s1: "statics w1 = statics w" by simp
  show ?case
  proof (cases res)
    case (Inr y')
    with b c Cons.IH[of y' w1] s1 show ?thesis by simp
  next
    case (Inl e)
    let ?w2 = "ui_warn (JStr (name @ '' blueprint failed to configure itself:'')) w1"
    show ?thesis
    proof (cases "get_stack e")
      case t: (Inl t)
      with b c Inl s1 show ?thesis by (simp add: Let_def)
    next
      case st: (Inr st)
      with b c Inl s1 Cons.IH[of yargs "ui_warn st ?w2"] show ?thesis by (simp add: Let_def)
    qed
  qed
qed

lemma addRoute_statics:
  "statics (snd (addRoute parse print verb urlPattern actionPath args w)) = statics w"
  by (auto simp: addRoute_def split: sum.splits option.splits)

lemma removeRoute_statics:
  "statics (snd (removeRoute parse print remove verb urlPattern actionPath args w)) = statics w"
  by (auto simp: removeRoute_def split: sum.splits prod.splits)


subsection \<open>The routes file\<close>

text \<open>\<^verbatim>\<open>find\<close> gives exactly the nodes at or below the statements of the body that satisfy the
  filter.\<close>

lemma find_list_member:
  "c \<in> set ns \<Longrightarrow> (P c \<longrightarrow> c \<in> set (find_list P ns)) \<and> set (find_in P c) \<subseteq> set (find_list P ns)"
  by (induction ns) auto

lemma find_fields_member:
  "c \<in> set (concat (map field_nodes fs)) \<Longrightarrow>
   (P c \<longrightarrow> c \<in> set (find_fields P fs)) \<and> set (find_in P c) \<subseteq> set (find_fields P fs)"
proof (induction fs)
  case Nil
  then show ?case by simp
next
  case (Cons f fs)
  show ?case
  proof (cases f)
    case (One n)
    with Cons show ?thesis by auto
  next
    case (Many ns)
    with Cons find_list_member[of c ns P] show ?thesis by auto
  qed
qed

lemma find_in_child:
  "c \<in> set (children n) \<Longrightarrow>
   (P c \<longrightarrow> c \<in> set (find_in P n)) \<and> set (find_in P c) \<subseteq> set (find_in P n)"
proof (cases n)
  case (CallExpression callee args)
  assume "c \<in> set (children n)"
  with CallExpression find_list_member[of c args P] show ?thesis by auto
next
  case (NewExpression callee args)
  assume "c \<in> set (children n)"
  with NewExpression find_list_member[of c args P] show ?thesis by auto
next
  case (Other t fs)
  assume "c \<in> set (children n)"
  with Other find_fields_member[of c fs P] show ?thesis by auto
qed auto

lemma find_in_complete: "below d n \<Longrightarrow> P d \<Longrightarrow> d \<in> set (find_in P n)"
proof (induction rule: below.induct)
  case (child d n)
  with find_in_child[of d n P] show ?case by simp
next
  case (deeper c n d)
  with find_in_child[of c n P] show ?case by auto
qed

lemma find_list_complete: "within d body \<Longrightarrow> P d \<Longrightarrow> d \<in> set (find_list P body)"
  unfolding within_def using find_list_member[of _ body P] find_in_complete[of d _ P] by blast

lemma below_via:
  assumes "c \<in> set (children n)" and "d = c \<or> below d c"
  shows "below d n"
proof -
  from assms(2) show ?thesis
  proof
    assume "d = c"
    with assms(1) show ?thesis by (simp only: below.child)
  next
    assume "below d c"
    with assms(1) show ?thesis by (rule below.deeper)
  qed
qed

lemma below_cases:
  "d = obj \<or> below d obj \<Longrightarrow> below d (MemberExpression obj property c)"
  "d = property \<or> below d property \<Longrightarrow> below d (MemberExpression obj property c)"
  "d = callee \<or> below d callee \<Longrightarrow> below d (CallExpression callee args)"
  "x \<in> set args \<Longrightarrow> d = x \<or> below d x \<Longrightarrow> below d (CallExpression callee args)"
  "d = callee \<or> below d callee \<Longrightarrow> below d (NewExpression callee args)"
  "x \<in> set args \<Longrightarrow> d = x \<or> below d x \<Longrightarrow> below d (NewExpression callee args)"
  "d = e \<or> below d e \<Longrightarrow> below d (ExpressionStatement e)"
  "x \<in> set (concat (map field_nodes fs)) \<Longrightarrow> d = x \<or> below d x \<Longrightarrow> below d (Other t fs)"
  using below_via[of obj "MemberExpression obj property c" d]
    below_via[of property "MemberExpression obj property c" d]
    below_via[of callee "CallExpression callee args" d]
    below_via[of x "CallExpression callee args" d]
    below_via[of callee "NewExpression callee args" d]
    below_via[of x "NewExpression callee args" d]
    below_via[of e "ExpressionStatement e" d]
    below_via[of x "Other t fs" d]
  by simp_all

lemma find_sound:
  "d \<in> set (find_in P n) \<Longrightarrow> below d n \<and> P d"
  "d \<in> set (find_list P ns) \<Longrightarrow> within d ns \<and> P d"
  "d \<in> set (find_fields P fs) \<Longrightarrow>
     (\<exists>c \<in> set (concat (map field_nodes fs)). d = c \<or> below d c) \<and> P d"
proof (induction P n and P ns and P fs rule: find_in_find_list_find_fields.induct)
  case (3 P obj property c)
  then show ?case
    by (auto split: if_splits intro: below_cases(1,2))
next
  case (4 P callee args)
  then show ?case
    by (auto simp: within_def split: if_splits intro: below_cases(3,4))
next
  case (5 P callee args)
  then show ?case
    by (auto simp: within_def split: if_splits intro: below_cases(5,6))
next
  case (6 P e)
  then show ?case
    by (auto split: if_splits intro: below_cases(7))
next
  case (7 P t fs)
  then have "(\<exists>c \<in> set (concat (map field_nodes fs)). d = c \<or> below d c) \<and> P d"
    by simp
  then show ?case using below_cases(8)[of _ fs d t] by blast
next
  case (9 P n ns)
  then show ?case by (auto simp: within_def split: if_splits)
next
  case (11 P n fs)
  then show ?case by (auto split: if_splits)
next
  case (12 P ns fs)
  then show ?case by (auto simp: within_def)
qed simp_all

lemma find_list_iff: "d \<in> set (find_list P body) \<longleftrightarrow> within d body \<and> P d"
  using find_sound(2)[of d P body] find_list_complete[of d body P] by blast

lemma arguments_match_literals: "arguments_match vs (map Literal vs @ extra)"
  by (induction vs) auto

text \<open>
  Claim C9 says that \<^verbatim>\<open>addRoute\<close> writes nothing when the routes file already has a statement
  that calls \<^verbatim>\<open>method\<close> on the router parameter with exactly \<^verbatim>\<open>urlPattern\<close>, \<^verbatim>\<open>actionPath\<close> and
  \<^verbatim>\<open>args\<close>. \<^verbatim>\<open>actionPath\<close> is optional (line 292). When it is left out, the filter of line 306
  still asks for a second argument, one whose \<^verbatim>\<open>value\<close> is \<^verbatim>\<open>undefined\<close>, and the statement
  \<^verbatim>\<open>router.get('/foo')\<close> that \<^verbatim>\<open>addRoute('get', '/foo')\<close> describes does not match it: the
  duplicate is not seen, a statement is inserted after it, and the file is rewritten.
\<close>

theorem addRoute_without_actionPath_rewrites:
  "readFileSync (files foo_world) (routes_path foo_world) = Inr ''foo''
   \<and> foo_parse ''foo'' = Inr foo_routes
   \<and> addRoute_ast ''get'' ''/foo'' None [] foo_routes =
       Inr (Some
         [ExportDefaultDeclaration
            (FunctionDeclaration [''router'']
               [ExpressionStatement
                  (CallExpression
                     (MemberExpression (Identifier ''router'') (Identifier ''get'') False)
                     [Literal (JStr ''/foo'')]),
                ExpressionStatement
                  (CallExpression
                     (MemberExpression (Identifier ''router'') (Identifier ''get'') False)
                     [])])])
   \<and> fst (addRoute foo_parse foo_print ''get'' ''/foo'' None [] foo_world) = None
   \<and> map_of (files (snd (addRoute foo_parse foo_print ''get'' ''/foo'' None [] foo_world)))
       [''proj'', ''config'', ''routes.js''] = Some (File ''changed'')"
  by code_simp

text \<open>
  With an \<^verbatim>\<open>actionPath\<close> the duplicate is seen. When a statement that calls \<^verbatim>\<open>verb\<close> on the
  router parameter with the literals \<^verbatim>\<open>urlPattern\<close>, \<^verbatim>\<open>actionPath\<close> and \<^verbatim>\<open>args\<close>, and any further
  arguments after them, is anywhere in the body of the exported function, \<^verbatim>\<open>addRoute\<close>
  returns normally and the world after the call is the world before it.
\<close>

lemma addRoute_duplicate_is_noop:
  assumes src: "readFileSync (files w) (routes_path w) = Inr routesSource"
    and ast: "parse routesSource = Inr ast"
    and fn: "export_default ast = Some (FunctionDeclaration (routerArgName # params) body)"
    and dup: "within (ExpressionStatement
                (CallExpression (MemberExpression (Identifier routerArgName) (Identifier verb) c)
                   (map Literal (JStr urlPattern # JStr actionPath # args) @ extra))) body"
  shows "addRoute parse print verb urlPattern (Some actionPath) args w = (None, w)"
proof -
  let ?s = "ExpressionStatement
                (CallExpression (MemberExpression (Identifier routerArgName) (Identifier verb) c)
                   (map Literal (JStr urlPattern # JStr actionPath # args) @ extra))"
  let ?P = "is_route routerArgName verb (route_arguments urlPattern (Some actionPath) args)"
  have "arguments_match (JStr urlPattern # JStr actionPath # args)
          (map Literal (JStr urlPattern # JStr actionPath # args) @ extra)"
    by (rule arguments_match_literals)
  then have "?P ?s" by (simp add: route_arguments_def)
  with dup have "?s \<in> set (find_list ?P body)" by (rule find_list_complete)
  then have "find_list ?P body \<noteq> []" by auto
  with fn have "addRoute_ast verb urlPattern (Some actionPath) args ast = Inr None"
    by (simp add: addRoute_ast_def draw_routes_function_def)
  with src ast show ?thesis by (simp add: addRoute_def)
qed

lemma addRoute_duplicate_on_demo_routes:
  "addRoute demo_parse demo_print ''get'' ''/'' (Some ''index'') [] routes_world
     = (None, routes_world)"
proof -
  have src: "readFileSync (files routes_world) (routes_path routes_world) = Inr ''routes''"
    by code_simp
  have ast: "demo_parse ''routes'' = Inr demo_routes"
    by (simp add: demo_parse_def)
  have fn: "export_default demo_routes = Some (FunctionDeclaration (''router'' # [])
      [ExpressionStatement
         (CallExpression (MemberExpression (Identifier ''router'') (Identifier ''get'') False)
            [Literal (JStr ''/''), Literal (JStr ''index'')]),
       Other ''ReturnStatement'' []])"
    by (simp add: demo_routes_def)
  have dup: "within (ExpressionStatement
                (CallExpression (MemberExpression (Identifier ''router'') (Identifier ''get'') False)
                   (map Literal (JStr ''/'' # JStr ''index'' # []) @ [])))
              [ExpressionStatement
                 (CallExpression (MemberExpression (Identifier ''router'') (Identifier ''get'') False)
                    [Literal (JStr ''/''), Literal (JStr ''index'')]),
               Other ''ReturnStatement'' []]"
    by (simp add: within_def)
  from addRoute_duplicate_is_noop[where parse = demo_parse and print = demo_print, OF src ast fn dup]
  show ?thesis .
qed

text \<open>A duplicate inside an \<^verbatim>\<open>if\<close> is found as well; since the last router invocation is then
  the single statement of a field, a route that is not there yet cannot be inserted
  after it.\<close>

lemma addRoute_inside_if:
  "addRoute_ast ''get'' ''/'' (Some ''index'') []
     [ExportDefaultDeclaration
        (FunctionDeclaration [''router'']
           [Other ''IfStatement''
              [One (Identifier ''dev''),
               One (ExpressionStatement
                      (CallExpression
                         (MemberExpression (Identifier ''router'') (Identifier ''get'') False)
                         [Literal (JStr ''/''), Literal (JStr ''index'')]))]])]
     = Inr None
   \<and> addRoute_ast ''get'' ''/other'' (Some ''other'') []
     [ExportDefaultDeclaration
        (FunctionDeclaration [''router'']
           [Other ''IfStatement''
              [One (Identifier ''dev''),
               One (ExpressionStatement
                      (CallExpression
                         (MemberExpression (Identifier ''router'') (Identifier ''get'') False)
                         [Literal (JStr ''/''), Literal (JStr ''index'')]))]])]
     = Inl not_in_array"
  by code_simp

text \<open>Where \<^verbatim>\<open>find\<close> has no match, nothing is inserted; and when the last match is a statement
  of the body itself, with no match below it or after it, the new statement goes right
  after it.\<close>

lemma insert_no_match:
  "find_in P n = [] \<Longrightarrow> insert_below P new n = NoMatch"
  "find_list P ns = [] \<Longrightarrow> insert_list P new ns = NoMatch"
  "find_fields P fs = [] \<Longrightarrow> insert_fields P new fs = NoMatch"
  by (induction P new n and P new ns and P new fs
      rule: insert_below_insert_list_insert_fields.induct)
    (auto split: if_splits)

lemma insert_after_last_statement:
  assumes "P s" and "find_in P s = []" and "find_list P post = []"
  shows "insert_list P new (pre @ s # post) = Edited (pre @ s # new # post)"
proof (induction pre)
  case Nil
  from assms show ?case by (simp add: insert_no_match)
next
  case (Cons x pre)
  then show ?case by simp
qed

text \<open>
  Claim C4 says that the statement \<^verbatim>\<open>addRoute\<close> inserts calls \<^verbatim>\<open>verb\<close> with \<^verbatim>\<open>urlPattern\<close>,
  \<^verbatim>\<open>actionPath\<close> and the remaining \<^verbatim>\<open>args\<close>. Line 323 builds the arguments from \<^verbatim>\<open>args\<close> alone,
  while the duplicate check of lines 306 and 347 uses \<^verbatim>\<open>[urlPattern, actionPath].concat(args)\<close>.
  For \<^verbatim>\<open>addRoute('post', '/foo', 'foo/create')\<close> on the routes file above, the statement
  inserted after the last router invocation is \<^verbatim>\<open>router.post()\<close>, and that tree is what
  is written to the file.
\<close>

theorem addRoute_drops_urlPattern_and_actionPath:
  "addRoute_ast ''post'' ''/foo'' (Some ''foo/create'') [] demo_routes =
     Inr (Some
       [OtherItem ''import'',
        ExportDefaultDeclaration
          (FunctionDeclaration [''router'']
             [ExpressionStatement
                (CallExpression
                   (MemberExpression (Identifier ''router'') (Identifier ''get'') False)
                   [Literal (JStr ''/''), Literal (JStr ''index'')]),
              ExpressionStatement
                (CallExpression
                   (MemberExpression (Identifier ''router'') (Identifier ''post'') False)
                   []),
              Other ''ReturnStatement'' []])])
   \<and> fst (addRoute demo_parse demo_print ''post'' ''/foo'' (Some ''foo/create'') [] routes_world)
       = None
   \<and> map_of (files (snd (addRoute demo_parse demo_print ''post'' ''/foo'' (Some ''foo/create'') []
                           routes_world))) [''proj'', ''config'', ''routes.js'']
       = Some (File ''changed'')"
  by code_simp


subsection \<open>Inputs on which claims C3, C6 and C10 hold\<close>

text \<open>A value other than \<^verbatim>\<open>undefined\<close> and \<^verbatim>\<open>null\<close> thrown by a hook is logged and goes no
  further (claim C6).\<close>

lemma postInstall_failed_resolves:
  "e \<noteq> JUndefined \<Longrightarrow> e \<noteq> JNull \<Longrightarrow> fst (postInstall_failed e w) = Resolved"
  by (cases e) (simp_all add: postInstall_failed_def Let_def)

lemma configureBlueprints_logs_failures:
  assumes "\<forall>r y c u e. fst (conf r y c u) = Inl e \<longrightarrow> e \<noteq> JUndefined \<and> e \<noteq> JNull"
  shows "\<exists>y'. fst (configureBlueprints conf bps yargs ctx w) = Inr y'"
proof (induction bps arbitrary: yargs w)
  case Nil
  then show ?case by simp
next
  case (Cons b bps)
  obtain name r where b: "b = (name, r)" by (cases b)
  obtain res w1 where c: "conf r yargs (ctx\<lparr>invoked_as := name\<rparr>) w = (res, w1)"
    by (cases "conf r yargs (ctx\<lparr>invoked_as := name\<rparr>) w")
  show ?case
  proof (cases res)
    case (Inr y')
    with b c Cons.IH[of y' w1] show ?thesis by simp
  next
    case (Inl e)
    with c assms have "e \<noteq> JUndefined" "e \<noteq> JNull" by (metis fst_conv)+
    then obtain st where "get_stack e = Inr st" by (cases e) auto
    with b c Inl Cons.IH show ?thesis by (simp add: Let_def)
  qed
qed

text \<open>A single marker in a relative path and a single marker \<^verbatim>\<open><%= e %>\<close> in file contents
  are replaced by the value of their expression (claim C3).\<close>

lemma until_close_first:
  "CHR ''>'' \<notin> set a \<Longrightarrow> until_close (a @ ''%>'' @ b) = Some a"
  by (induction a rule: until_close.induct) auto


lemma match_erb_other_start:
  "pre \<noteq> [] \<Longrightarrow> c \<noteq> hd pre \<Longrightarrow> match_erb pre (c # cs) = None"
  by (cases pre) (auto simp: match_erb_def)

lemma match_delimiter_plain:
  assumes "c \<noteq> CHR ''<''" and "opts = Some DunderRegExp \<longrightarrow> c \<noteq> CHR ''_''"
    and "opts = None \<longrightarrow> c \<noteq> CHR ''$''"
  shows "match_delimiter opts (c # cs) = None"
proof -
  from assms(1) have e: "match_erb ''<%-'' (c # cs) = None" "match_erb ''<%='' (c # cs) = None"
    "match_erb ''<%'' (c # cs) = None"
    by (simp_all add: match_erb_other_start)
  from assms(2) have d: "opts = Some DunderRegExp \<longrightarrow> match_dunder (c # cs) = None"
    by (simp add: match_dunder_def numeral_2_eq_2)
  from assms(3) have s: "opts = None \<longrightarrow> match_es (c # cs) = None"
    by (simp add: match_es_def numeral_2_eq_2)
  from e d s show ?thesis
    by (auto simp: match_delimiter_def split: option.splits interpolate_re.splits)
qed

lemma compile_plain_prefix:
  assumes "\<forall>c \<in> set pre. c \<noteq> CHR ''<'' \<and> (opts = Some DunderRegExp \<longrightarrow> c \<noteq> CHR ''_'')
             \<and> (opts = None \<longrightarrow> c \<noteq> CHR ''$'')"
  shows "compile opts (pre @ s) = map (\<lambda>c. Text [c]) pre @ compile opts s"
  using assms
proof (induction pre)
  case Nil
  then show ?case by simp
next
  case (Cons c pre)
  then have "match_delimiter opts (c # pre @ s) = None"
    by (intro match_delimiter_plain) auto
  with Cons show ?case by simp
qed

lemma block_free_plain:
  "block_free (map (\<lambda>c. Text [c]) pre @ segs) =
     map_option ((@) (map (\<lambda>c. Verbatim [c]) pre)) (block_free segs)"
  by (induction pre) (auto simp: option.map_comp comp_def option.map_ident)

lemma first_syntax_error_plain:
  "first_syntax_error chk (map (\<lambda>c. Verbatim [c]) pre @ ps) = first_syntax_error chk ps"
  by (induction pre) auto

lemma render_plain:
  "render ev data (map (\<lambda>c. Verbatim [c]) pre @ ps) =
     (case render ev data ps of Inl x \<Rightarrow> Inl x | Inr r \<Rightarrow> Inr (pre @ r))"
  by (induction pre) (auto split: sum.splits)

text \<open>A template with one marker among plain text.\<close>

lemma apply_template_single:
  assumes "compile opts s = map (\<lambda>c. Text [c]) pre @ Code Interpolate e # map (\<lambda>c. Text [c]) post"
  shows "apply_template eng opts s data =
     (case syntax_error eng e of
        Some x \<Rightarrow> Inl x
      | None \<Rightarrow>
          (case eval_expr eng e data of
             Inl x \<Rightarrow> Inl x
           | Inr v \<Rightarrow> Inr (pre @ interpolated v @ post)))"
proof -
  have b: "block_free (compile opts s)
      = Some (map (\<lambda>c. Verbatim [c]) pre @ Insert e # map (\<lambda>c. Verbatim [c]) post)"
    unfolding assms block_free_plain
    using block_free_plain[of post "[]"] by simp
  have r: "render ev data (map (\<lambda>c. Verbatim [c]) post) = Inr post" for ev
    using render_plain[of ev data post "[]"] by simp
  have f: "first_syntax_error chk (map (\<lambda>c. Verbatim [c]) post) = None" for chk
    using first_syntax_error_plain[of chk post "[]"] by simp
  show ?thesis
    unfolding apply_template_def template_def Let_def b
    by (simp add: first_syntax_error_plain render_plain r f split: option.splits sum.splits)
qed

lemma compile_plain:
  assumes "\<forall>c \<in> set s. c \<noteq> CHR ''<'' \<and> (opts = Some DunderRegExp \<longrightarrow> c \<noteq> CHR ''_'')
             \<and> (opts = None \<longrightarrow> c \<noteq> CHR ''$'')"
  shows "compile opts s = map (\<lambda>c. Text [c]) s"
  using compile_plain_prefix[of s opts "[]"] assms by simp

lemma compile_match:
  assumes "match_delimiter opts (a @ r) = Some (segs, length a)" and "a \<noteq> []"
  shows "compile opts (a @ r) = segs @ compile opts r"
proof -
  from assms(2) obtain c cs where a: "a = c # cs" by (cases a) auto
  have "drop (length a - 1) (cs @ r) = r" by (simp add: a)
  with assms(1) a show ?thesis by simp
qed


lemma compile_interpolate_marker:
  assumes "e \<noteq> []" and "CHR ''>'' \<notin> set e" and "opts \<noteq> Some DunderRegExp"
  shows "compile opts (''<%='' @ e @ ''%>'' @ post) = Code Interpolate e # compile opts post"
proof -
  from assms(1) obtain c e' where e: "e = c # e'" by (cases e) auto
  with assms(2) have "until_close (e' @ ''%>'' @ post) = Some e'"
    by (intro until_close_first) simp
  with e have i: "match_erb ''<%='' (''<%='' @ e @ ''%>'' @ post) = Some e"
    by (simp add: match_erb_def)
  have n: "match_erb ''<%-'' (''<%='' @ e @ ''%>'' @ post) = None"
    by (simp add: match_erb_def)
  from i n assms(3) have
    "match_delimiter opts (''<%='' @ e @ ''%>'' @ post) = Some ([Code Interpolate e], length e + 5)"
    by (cases opts) (auto simp: match_delimiter_def split: interpolate_re.splits)
  then have "match_delimiter opts ((''<%='' @ e @ ''%>'') @ post)
      = Some ([Code Interpolate e], length (''<%='' @ e @ ''%>''))"
    by simp
  then have "compile opts ((''<%='' @ e @ ''%>'') @ post) = [Code Interpolate e] @ compile opts post"
    by (rule compile_match) simp
  then show ?thesis by simp
qed


lemma contents_marker_replaced:
  assumes "CHR ''<'' \<notin> set pre" and "e \<noteq> []" and "CHR ''>'' \<notin> set e"
    and "CHR ''<'' \<notin> set post"
  shows "apply_template eng (Some ErbRegExp) (pre @ ''<%='' @ e @ ''%>'' @ post) data =
     (case syntax_error eng e of
        Some x \<Rightarrow> Inl x
      | None \<Rightarrow>
          (case eval_expr eng e data of
             Inl x \<Rightarrow> Inl x
           | Inr v \<Rightarrow> Inr (pre @ interpolated v @ post)))"
proof -
  from assms(1) have "compile (Some ErbRegExp) (pre @ ''<%='' @ e @ ''%>'' @ post)
      = map (\<lambda>c. Text [c]) pre @ compile (Some ErbRegExp) (''<%='' @ e @ ''%>'' @ post)"
    by (intro compile_plain_prefix) auto
  also from assms(2,3) have "compile (Some ErbRegExp) (''<%='' @ e @ ''%>'' @ post)
      = Code Interpolate e # compile (Some ErbRegExp) post"
    by (intro compile_interpolate_marker) simp_all
  also from assms(4) have "compile (Some ErbRegExp) post = map (\<lambda>c. Text [c]) post"
    by (intro compile_plain) auto
  finally show ?thesis by (rule apply_template_single)
qed

lemma take_two: "take 2 t = [a, b] \<longleftrightarrow> (\<exists>r. t = a # b # r)"
proof (cases t)
  case Nil
  then show ?thesis by simp
next
  case (Cons x xs)
  then show ?thesis by (cases xs) (auto simp: numeral_2_eq_2)
qed

lemma greedy_dunder_none: "CHR ''_'' \<notin> set t \<Longrightarrow> greedy_dunder t = None"
proof (induction t)
  case Nil
  then show ?case by simp
next
  case (Cons c t)
  then have "greedy_dunder t = None" by simp
  moreover from Cons.prems have "take 2 t \<noteq> ''__''" unfolding take_two by auto
  ultimately show ?case by simp
qed

lemma greedy_dunder_single:
  assumes "name \<noteq> []" and "CHR ''_'' \<notin> set name" and "CHR ''_'' \<notin> set t"
  shows "greedy_dunder (name @ ''__'' @ t) = Some name"
  using assms
proof (induction name)
  case Nil
  then show ?case by simp
next
  case (Cons c name)
  from Cons.prems(3) have t: "greedy_dunder t = None" by (rule greedy_dunder_none)
  from Cons.prems(3) have t2: "take 2 t \<noteq> ''__''" "take 2 (CHR ''_'' # t) \<noteq> ''__''"
    unfolding take_two by auto
  from t t2 have u: "greedy_dunder (''__'' @ t) = None" by simp
  show ?case
  proof (cases "name = []")
    case True
    with u have "greedy_dunder ((c # name) @ ''__'' @ t)
        = (if take 2 (''__'' @ t) = ''__'' then Some [c] else None)"
      by simp
    also have "take 2 (''__'' @ t) = ''__''" unfolding take_two by simp
    finally show ?thesis using True by simp
  next
    case False
    with Cons have "greedy_dunder (name @ ''__'' @ t) = Some name" by simp
    then show ?thesis by simp
  qed
qed


lemma filename_marker_replaced:
  assumes pre: "\<forall>c \<in> set pre. c \<noteq> CHR ''<'' \<and> c \<noteq> CHR ''_''"
    and name: "name \<noteq> []" "\<forall>c \<in> set name. c \<noteq> CHR ''_'' \<and> \<not> is_space c"
    and post: "\<forall>c \<in> set post. c \<noteq> CHR ''<'' \<and> c \<noteq> CHR ''_''"
  shows "apply_template eng (Some DunderRegExp) (pre @ ''__'' @ name @ ''__'' @ post) data =
     (case syntax_error eng name of
        Some x \<Rightarrow> Inl x
      | None \<Rightarrow>
          (case eval_expr eng name data of
             Inl x \<Rightarrow> Inl x
           | Inr v \<Rightarrow> Inr (pre @ interpolated v @ post)))"
proof -
  let ?ns = "\<lambda>c. \<not> is_space c"
  have us: "?ns CHR ''_''" by (simp add: is_space_def)
  from name(2) have "takeWhile ?ns (name @ ''__'' @ post) = name @ takeWhile ?ns (''__'' @ post)"
    by (intro takeWhile_append2) simp
  also from us have "takeWhile ?ns (''__'' @ post) = ''__'' @ takeWhile ?ns post"
    by simp
  finally have run: "takeWhile ?ns (name @ ''__'' @ post) = name @ ''__'' @ takeWhile ?ns post" .
  have "CHR ''_'' \<notin> set (takeWhile ?ns post)"
    using post by (auto dest: set_takeWhileD)
  with name have "greedy_dunder (name @ ''__'' @ takeWhile ?ns post) = Some name"
    by (intro greedy_dunder_single) auto
  with run have g: "greedy_dunder (takeWhile ?ns (name @ ''__'' @ post)) = Some name"
    by simp
  have t: "take 2 (''__'' @ name @ ''__'' @ post) = ''__''" unfolding take_two by simp
  have dr: "drop 2 (''__'' @ name @ ''__'' @ post) = name @ ''__'' @ post"
    by (simp add: numeral_2_eq_2)
  from g have d: "match_dunder (''__'' @ name @ ''__'' @ post) = Some name"
    unfolding match_dunder_def t dr by simp
  have e: "match_erb ''<%-'' (''__'' @ name @ ''__'' @ post) = None"
    by (simp add: match_erb_def)
  have "match_delimiter (Some DunderRegExp) (''__'' @ name @ ''__'' @ post)
      = Some ([Code Interpolate name], length name + 4)"
    unfolding match_delimiter_def e d by simp
  then have "match_delimiter (Some DunderRegExp) ((''__'' @ name @ ''__'') @ post)
      = Some ([Code Interpolate name], length (''__'' @ name @ ''__''))"
    by simp
  then have "compile (Some DunderRegExp) ((''__'' @ name @ ''__'') @ post)
      = [Code Interpolate name] @ compile (Some DunderRegExp) post"
    by (rule compile_match) simp
  then have m: "compile (Some DunderRegExp) (''__'' @ name @ ''__'' @ post)
      = Code Interpolate name # compile (Some DunderRegExp) post"
    by simp
  from pre have c1: "compile (Some DunderRegExp) (pre @ ''__'' @ name @ ''__'' @ post)
      = map (\<lambda>c. Text [c]) pre @ compile (Some DunderRegExp) (''__'' @ name @ ''__'' @ post)"
    by (intro compile_plain_prefix) auto
  from post have c2: "compile (Some DunderRegExp) post = map (\<lambda>c. Text [c]) post"
    by (intro compile_plain) auto
  from c1 m c2 have "compile (Some DunderRegExp) (pre @ ''__'' @ name @ ''__'' @ post)
      = map (\<lambda>c. Text [c]) pre @ Code Interpolate name # map (\<lambda>c. Text [c]) post"
    by simp
  then show ?thesis by (rule apply_template_single)
qed

text \<open>With modules that export the class itself, each blueprint whose name is taken moves
  to \<^verbatim>\<open><addon>:<name>\<close> and all stay in the map (claim C10).\<close>

lemma class_exports_are_scoped:
  "fst (findBlueprints class_loader [(''A'', [''a'']), (''B'', [''b'']), (''C'', [''c''])]
          addons_world)
     = Inr [(''x'', 3), (''route'', 4), (''A:x'', 1), (''B:x'', 2)]"
  by code_simp


subsection \<open>Templates with blocks, trailing slashes and inherited statics\<close>

text \<open>A template with an \<^verbatim>\<open>evaluate\<close> block is handed to the engine as a whole, when it is
  compiled and when it is run.\<close>

lemma template_with_block:
  "apply_template eng (Some ErbRegExp) ''<% if (n) { %>a<% } %>'' data =
     (case blocks_error eng [Code Evaluate '' if (n) { '', Text ''a'', Code Evaluate '' } ''] of
        Some e \<Rightarrow> Inl e
      | None \<Rightarrow>
          run_blocks eng [Code Evaluate '' if (n) { '', Text ''a'', Code Evaluate '' } ''] data)"
  by (simp add: apply_template_def template_def match_delimiter_def match_erb_def
      split: option.splits)

text \<open>\<^verbatim>\<open>generate\<close> compiles the contents before it creates directories and runs them after:
  a template that does not compile leaves the files as they are, one that throws when it
  is run leaves the directories that \<^verbatim>\<open>mkdirp\<close> made.\<close>

lemma generate_entry_compile_error:
  assumes "\<not> isDirectory (files w) (path_resolve (path_join tf rel))"
    and "apply_template eng (Some DunderRegExp) rel data = Inr destRel"
    and "\<not> existsSync (files w) (path_join dest destRel)"
    and "readFileSync (files w) (path_resolve (path_join tf rel)) = Inr contents"
    and "template eng (Some ErbRegExp) contents = Inl e"
  shows "generate_entry eng data tf dest rel w = (Some e, w)"
proof -
  from assms(2) obtain compiled
    where "template eng (Some DunderRegExp) rel = Inr compiled" "compiled data = Inr destRel"
    by (auto simp: apply_template_Inr)
  with assms(1,3,4,5) show ?thesis by (simp add: generate_entry_def Let_def)
qed

lemma generate_entry_run_error:
  assumes "\<not> isDirectory (files w) (path_resolve (path_join tf rel))"
    and "apply_template eng (Some DunderRegExp) rel data = Inr destRel"
    and "\<not> existsSync (files w) (path_join dest destRel)"
    and "readFileSync (files w) (path_resolve (path_join tf rel)) = Inr contents"
    and "template eng (Some ErbRegExp) contents = Inr contentsTemplate"
    and "mkdirp (path_dirname (path_join dest destRel)) (files w) = Inr fs1"
    and "contentsTemplate data = Inl e"
  shows "generate_entry eng data tf dest rel w = (Some e, w\<lparr>files := fs1\<rparr>)"
proof -
  from assms(2) obtain compiled
    where "template eng (Some DunderRegExp) rel = Inr compiled" "compiled data = Inr destRel"
    by (auto simp: apply_template_Inr)
  with assms(1,3,4,5,6,7) show ?thesis by (simp add: generate_entry_def Let_def)
qed

text \<open>\<^verbatim>\<open>path.join\<close> keeps a trailing slash. A destination \<^verbatim>\<open>bob.js/\<close> does not exist when
  \<^verbatim>\<open>bob.js\<close> is a file, and it cannot be written.\<close>

lemma trailing_slash_kept:
  "path_join [''proj''] ''bob.js/'' = [''proj'', ''bob.js'', []]
   \<and> path_resolve (path_join [''proj''] ''bob.js/'') = [''proj'', ''bob.js'']
   \<and> path_dirname (path_join [''proj''] ''bob.js/'') = [''proj'']
   \<and> \<not> existsSync (files demo_world) (path_join [''proj''] ''bob.js/'')
   \<and> existsSync (files demo_world) (path_join [''bp''] ''files/'')
   \<and> writeFileSync (files demo_world) (path_join [''proj''] ''bob.js/'') ''x''
       = Inl (fs_error ''ENOTDIR'' [''proj'', ''bob.js'', []])"
  by code_simp

lemma generate_to_trailing_slash_rejects:
  "fst (generate lookup_engine
          \<lparr>cls = 0, locals = (\<lambda>a. Inr [(''n'', JStr ''bob.js/'')]),
           postInstall = noop_hook, postUninstall = noop_hook\<rparr> ()
          (demo_world\<lparr>files := [([], Directory), ([''bp''], Directory),
              ([''bp'', ''files''], Directory), ([''bp'', ''files'', ''__n__''], File ''hi''),
              ([''proj''], Directory), ([''proj'', ''bob.js''], File ''mine'')]\<rparr>))
     = Rejected (fs_error ''ENOTDIR'' [''proj'', ''bob.js'', []])"
  by code_simp

text \<open>A static that a class does not have itself is read from the nearest class above it
  that has it.\<close>

lemma static_read_own:
  "property (statics w r) = Some v \<Longrightarrow> static_read property w r = Some v"
  by (simp add: static_read_def)

lemma static_read_inherited:
  "property (statics w r) = None \<Longrightarrow> superclasses (statics w r) = parent # others \<Longrightarrow>
   property (statics w parent) = Some v \<Longrightarrow> static_read property w r = Some v"
  by (simp add: static_read_def)

lemma static_read_undefined:
  "property (statics w r) = None \<Longrightarrow>
   \<forall>c \<in> set (superclasses (statics w r)). property (statics w c) = None \<Longrightarrow>
   static_read property w r = None"
proof -
  have "\<forall>c \<in> set cs. own c = None \<Longrightarrow> first_defined own cs = None" for own :: "nat \<Rightarrow> 'b option" and cs
    by (induction cs) auto
  then show "property (statics w r) = None \<Longrightarrow>
   \<forall>c \<in> set (superclasses (statics w r)). property (statics w c) = None \<Longrightarrow>
   static_read property w r = None"
    by (simp add: static_read_def)
qed


end
